theory Spec2Isabelle
  imports Main "HOL-Library.Word" "HOL-Library.Multiset"
begin

unbundle bit_operations_syntax

section \<open>Symbol renaming engine of the obfuscator\<close>

text \<open>
  The development follows the C++ sources under \<^verbatim>\<open>symbol-obfuscator/\<close>:
  \<^verbatim>\<open>src/crypto_hasher.cpp\<close> (hasher), \<^verbatim>\<open>src/cpp_mangler.cpp\<close> (mangled-name codec),
  \<^verbatim>\<open>src/c_obfuscator.cpp\<close> (source-text driver, mapping store, text rewriter),
  \<^verbatim>\<open>passes/SymbolObfuscationPass.cpp\<close> (IR driver) and
  \<^verbatim>\<open>tools/symbol-obfuscate.cpp\<close> (command line).

  A \<^verbatim>\<open>std::string\<close> is a \<open>string\<close> (a list of bytes), \<^verbatim>\<open>uint64_t\<close> and \<^verbatim>\<open>size_t\<close>
  values that take part in arithmetic are \<open>64 word\<close>, exceptions are values of a sum type.
\<close>

subsection \<open>Library functions the sources call\<close>

text \<open>
  OpenSSL's digests, the C++ ABI demangler, \<^verbatim>\<open>std::regex_search\<close> and \<^verbatim>\<open>std::sort\<close> are
  not part of the repository. They are parameters of the model. A digest fills a byte
  buffer, which is read by index as \<^verbatim>\<open>hexEncode\<close> does; \<open>cxa_demangle\<close> is \<open>Some d\<close>
  when \<^verbatim>\<open>abi::__cxa_demangle\<close> reports status 0 with a non-null result \<open>d\<close>;
  \<open>regex_search text pattern\<close> is \<^verbatim>\<open>std::regex_search(text, std::regex(pattern))\<close>.
  \<^verbatim>\<open>std::sort\<close> is not stable: where the comparator leaves the order of two elements open,
  the library decides. \<open>std_sort_choice\<close> is that decision, an arrangement of the vector
  the library starts from (see \<open>sorted_mapping\<close>).
\<close>

record host =
  SHA256_digest :: "string \<Rightarrow> nat \<Rightarrow> 8 word"
  blake2b512_digest :: "string \<Rightarrow> nat \<Rightarrow> 8 word"
  cxa_demangle :: "string \<Rightarrow> string option"
  regex_search :: "string \<Rightarrow> string \<Rightarrow> bool"
  std_sort_choice :: "(string \<times> string) list \<Rightarrow> (string \<times> string) list"

definition SHA256_DIGEST_LENGTH :: nat where
  "SHA256_DIGEST_LENGTH = 32"

text \<open>The length \<^verbatim>\<open>EVP_DigestFinal_ex\<close> reports for \<^verbatim>\<open>EVP_blake2b512\<close>.\<close>

definition blake2b512_hash_len :: nat where
  "blake2b512_hash_len = 64"

text \<open>The \<^verbatim>\<open><cctype>\<close> classes in the C locale.\<close>

definition isdigit :: "char \<Rightarrow> bool" where
  "isdigit c \<longleftrightarrow> c \<in> set ''0123456789''"

definition isalpha :: "char \<Rightarrow> bool" where
  "isalpha c \<longleftrightarrow> c \<in> set ''abcdefghijklmnopqrstuvwxyzABCDEFGHIJKLMNOPQRSTUVWXYZ''"

definition isalnum :: "char \<Rightarrow> bool" where
  "isalnum c \<longleftrightarrow> isalpha c \<or> isdigit c"

text \<open>\<^verbatim>\<open>std::to_string\<close> on a non-negative integer: its decimal digits.\<close>

definition digit_char :: "nat \<Rightarrow> char" where
  "digit_char d = ''0123456789'' ! d"

fun to_string :: "nat \<Rightarrow> string" where
  "to_string n = (if n < 10 then [digit_char n] else to_string (n div 10) @ [digit_char (n mod 10)])"

declare to_string.simps [simp del]

subsection \<open>Hasher: \<^verbatim>\<open>crypto_hasher.h\<close>, \<^verbatim>\<open>crypto_hasher.cpp\<close>\<close>

datatype HashAlgorithm = SHA256 | BLAKE2B | SIPHASH

datatype PrefixStyle = NONE | TYPED | UNDERSCORE

record HashConfig =
  algorithm :: HashAlgorithm
  prefix_style :: PrefixStyle
  hash_length :: nat
  global_salt :: string
  deterministic :: bool

text \<open>The member initialisers of \<^verbatim>\<open>struct HashConfig\<close>.\<close>

definition default_HashConfig :: HashConfig where
  "default_HashConfig =
     \<lparr>algorithm = SHA256, prefix_style = TYPED, hash_length = 12,
      global_salt = [], deterministic = True\<rparr>"

subsubsection \<open>\<^verbatim>\<open>class SipHasher\<close>\<close>

type_synonym sipstate = "64 word \<times> 64 word \<times> 64 word \<times> 64 word"

definition rotl :: "64 word \<Rightarrow> nat \<Rightarrow> 64 word" where
  "rotl x b = push_bit b x OR drop_bit (64 - b) x"

definition sipround :: "sipstate \<Rightarrow> sipstate" where
  "sipround s =
     (case s of (v0, v1, v2, v3) \<Rightarrow>
        let v0 = v0 + v1; v1 = rotl v1 13; v1 = v1 XOR v0; v0 = rotl v0 32;
            v2 = v2 + v3; v3 = rotl v3 16; v3 = v3 XOR v2;
            v0 = v0 + v3; v3 = rotl v3 21; v3 = v3 XOR v0;
            v2 = v2 + v1; v1 = rotl v1 17; v1 = v1 XOR v2; v2 = rotl v2 32
        in (v0, v1, v2, v3))"

text \<open>
  The inner loops \<^verbatim>\<open>m |= uint64_t(in[i]) << (i * 8)\<close>: \<open>load_bytes i m bs\<close> ors the
  bytes \<open>bs\<close> into \<open>m\<close>, the first one at byte position \<open>i\<close>.
\<close>

fun load_bytes :: "nat \<Rightarrow> 64 word \<Rightarrow> string \<Rightarrow> 64 word" where
  "load_bytes i m [] = m"
| "load_bytes i m (c # cs) = load_bytes (Suc i) (m OR push_bit (i * 8) (of_char c)) cs"

definition sip_compress :: "sipstate \<Rightarrow> 64 word \<Rightarrow> sipstate" where
  "sip_compress s m =
     (case s of (v0, v1, v2, v3) \<Rightarrow>
        (case sipround (sipround (v0, v1, v2, v3 XOR m)) of
           (v0, v1, v2, v3) \<Rightarrow> (v0 XOR m, v1, v2, v3)))"

text \<open>
  The block loop \<^verbatim>\<open>for (; in != end; in += 8)\<close>: it consumes whole 8-byte blocks and
  returns the state with the \<^verbatim>\<open>len & 7\<close> bytes that are left.
\<close>

fun sip_blocks :: "sipstate \<Rightarrow> string \<Rightarrow> sipstate \<times> string" where
  "sip_blocks s (b0 # b1 # b2 # b3 # b4 # b5 # b6 # b7 # rest) =
     sip_blocks (sip_compress s (load_bytes 0 0 [b0, b1, b2, b3, b4, b5, b6, b7])) rest"
| "sip_blocks s left = (s, left)"

definition SipHasher_hash :: "string \<Rightarrow> 64 word \<Rightarrow> 64 word \<Rightarrow> 64 word" where
  "SipHasher_hash data k0 k1 =
     (let v0 = 0x736f6d6570736575 XOR k0;
          v1 = 0x646f72616e646f6d XOR k1;
          v2 = 0x6c7967656e657261 XOR k0;
          v3 = 0x7465646279746573 XOR k1
      in case sip_blocks (v0, v1, v2, v3) data of
           (s, left) \<Rightarrow>
             let m = load_bytes 0 (push_bit 56 (of_nat (length data))) left
             in case sip_compress s m of
                  (v0, v1, v2, v3) \<Rightarrow>
                    (case sipround (sipround (sipround (sipround (v0, v1, v2 XOR 0xff, v3)))) of
                       (v0, v1, v2, v3) \<Rightarrow> v0 XOR v1 XOR v2 XOR v3))"

definition SipHasher_k0 :: "64 word" where
  "SipHasher_k0 = 0x0706050403020100"

definition SipHasher_k1 :: "64 word" where
  "SipHasher_k1 = 0x0f0e0d0c0b0a0908"

subsubsection \<open>Hex output\<close>

text \<open>One digit of a stream in \<^verbatim>\<open>std::hex\<close> mode (lower case).\<close>

definition hex_digit :: "nat \<Rightarrow> char" where
  "hex_digit d = ''0123456789abcdef'' ! d"

text \<open>\<^verbatim>\<open>ss << std::setw(2) << unsigned(data[i])\<close> with fill \<^verbatim>\<open>'0'\<close>.\<close>

definition hex_byte :: "8 word \<Rightarrow> string" where
  "hex_byte b = [hex_digit (unat b div 16), hex_digit (unat b mod 16)]"

definition hexEncode :: "(nat \<Rightarrow> 8 word) \<Rightarrow> nat \<Rightarrow> string" where
  "hexEncode data len = concat (map (\<lambda>i. hex_byte (data i)) [0..<len])"

text \<open>\<^verbatim>\<open>ss << std::hex << std::setfill('0') << std::setw(16) << hash_val\<close>.\<close>

definition hex_u64 :: "64 word \<Rightarrow> string" where
  "hex_u64 w = map (\<lambda>i. hex_digit (unat (drop_bit (4 * (15 - i)) w) mod 16)) [0..<16]"

definition sha256Hash :: "host \<Rightarrow> string \<Rightarrow> string" where
  "sha256Hash h input = hexEncode (SHA256_digest h input) SHA256_DIGEST_LENGTH"

definition blake2bHash :: "host \<Rightarrow> string \<Rightarrow> nat \<Rightarrow> string" where
  "blake2bHash h input output_len = hexEncode (blake2b512_digest h input) blake2b512_hash_len"

definition sipHash :: "HashConfig \<Rightarrow> string \<Rightarrow> string" where
  "sipHash cfg input =
     (let k0 = (if global_salt cfg \<noteq> []
                then SipHasher_hash (global_salt cfg @ ''k0'') SipHasher_k0 SipHasher_k1
                else SipHasher_k0);
          k1 = (if global_salt cfg \<noteq> []
                then SipHasher_hash (global_salt cfg @ ''k1'') SipHasher_k0 SipHasher_k1
                else SipHasher_k1)
      in hex_u64 (SipHasher_hash input k0 k1))"

definition truncateHash :: "string \<Rightarrow> nat \<Rightarrow> string" where
  "truncateHash full_hash len = (if length full_hash \<le> len then full_hash else take len full_hash)"

definition generateHash :: "host \<Rightarrow> HashConfig \<Rightarrow> string \<Rightarrow> string \<Rightarrow> string" where
  "generateHash h cfg original_name context_salt =
     (let input = global_salt cfg @ context_salt @ original_name;
          hash = (case algorithm cfg of
                    SHA256 \<Rightarrow> sha256Hash h input
                  | BLAKE2B \<Rightarrow> blake2bHash h input (hash_length cfg)
                  | SIPHASH \<Rightarrow> sipHash cfg input)
      in truncateHash hash (hash_length cfg))"

definition applyPrefix :: "HashConfig \<Rightarrow> string \<Rightarrow> string \<Rightarrow> string" where
  "applyPrefix cfg hash prefix =
     (if prefix \<noteq> [] then prefix @ hash
      else if prefix_style cfg = UNDERSCORE then ''_'' @ hash
      else if prefix_style cfg = NONE then
        (if hash \<noteq> [] \<and> isdigit (hd hash) then ''s_'' @ hash else hash)
      else hash)"

subsubsection \<open>\<^verbatim>\<open>class CryptoHasher\<close>\<close>

text \<open>
  The exceptions: \<^verbatim>\<open>std::runtime_error\<close> with its message, and the \<^verbatim>\<open>Json::LogicError\<close>
  an accessor of the JSON library throws on a value it cannot convert.
\<close>

datatype error = runtime_error string | LogicError

text \<open>The members \<^verbatim>\<open>config_\<close> and \<^verbatim>\<open>used_hashes_\<close>.\<close>

record CryptoHasher =
  hasher_config :: HashConfig
  hasher_used_hashes :: "string set"

definition CryptoHasher_new :: "HashConfig \<Rightarrow> CryptoHasher" where
  "CryptoHasher_new config = \<lparr>hasher_config = config, hasher_used_hashes = {}\<rparr>"

definition setSalt :: "CryptoHasher \<Rightarrow> string \<Rightarrow> CryptoHasher" where
  "setSalt H salt = H\<lparr>hasher_config := (hasher_config H)\<lparr>global_salt := salt\<rparr>\<rparr>"

definition getSalt :: "CryptoHasher \<Rightarrow> string" where
  "getSalt H = global_salt (hasher_config H)"

definition getAlgorithm :: "CryptoHasher \<Rightarrow> HashAlgorithm" where
  "getAlgorithm H = algorithm (hasher_config H)"

text \<open>
  The \<^verbatim>\<open>while\<close> loop of \<^verbatim>\<open>generateUniqueHash\<close>, entered with the current
  \<open>full_name\<close> and \<open>counter\<close>. The \<^verbatim>\<open>int\<close> counter stays below 10002.
\<close>

function unique_loop ::
  "host \<Rightarrow> CryptoHasher \<Rightarrow> string \<Rightarrow> string set \<Rightarrow> string \<Rightarrow> string \<Rightarrow> nat \<Rightarrow> error + string"
where
  "unique_loop h H name used_hashes prefix full_name counter =
     (if full_name \<in> used_hashes \<or> full_name \<in> hasher_used_hashes H then
        (if counter + 1 > 10000
         then Inl (runtime_error (''Too many hash collisions for: '' @ name))
         else unique_loop h H name used_hashes prefix
                (applyPrefix (hasher_config H)
                   (generateHash h (hasher_config H) (name @ ''_'' @ to_string counter) []) prefix)
                (counter + 1))
      else Inr full_name)"
  by pat_completeness auto
termination
  by (relation "measure (\<lambda>(h, H, name, used_hashes, prefix, full_name, counter). 10001 - counter)")
     auto

declare unique_loop.simps [simp del]

text \<open>
  \<^verbatim>\<open>generateUniqueHash\<close> returns the name, the caller's set (a reference parameter) and
  the hasher; neither set is touched when the exception is thrown.
\<close>

definition generateUniqueHash ::
  "host \<Rightarrow> CryptoHasher \<Rightarrow> string \<Rightarrow> string set \<Rightarrow> string
     \<Rightarrow> error + (string \<times> string set \<times> CryptoHasher)"
where
  "generateUniqueHash h H name used_hashes prefix =
     (case unique_loop h H name used_hashes prefix
             (applyPrefix (hasher_config H) (generateHash h (hasher_config H) name []) prefix) 0 of
        Inl e \<Rightarrow> Inl e
      | Inr full_name \<Rightarrow>
          Inr (full_name, insert full_name used_hashes,
               H\<lparr>hasher_used_hashes := insert full_name (hasher_used_hashes H)\<rparr>))"

text \<open>The typed entry points pass a local, empty \<^verbatim>\<open>temp_set\<close>, which is dropped.\<close>

definition hash_typed :: "string \<Rightarrow> host \<Rightarrow> CryptoHasher \<Rightarrow> string \<Rightarrow> error + (string \<times> CryptoHasher)" where
  "hash_typed typed_prefix h H name =
     (case generateUniqueHash h H name {}
             (if prefix_style (hasher_config H) = TYPED then typed_prefix else []) of
        Inl e \<Rightarrow> Inl e
      | Inr (full_name, temp_set, H') \<Rightarrow> Inr (full_name, H'))"

definition hashFunction :: "host \<Rightarrow> CryptoHasher \<Rightarrow> string \<Rightarrow> error + (string \<times> CryptoHasher)" where
  "hashFunction = hash_typed ''f_''"

definition hashVariable :: "host \<Rightarrow> CryptoHasher \<Rightarrow> string \<Rightarrow> error + (string \<times> CryptoHasher)" where
  "hashVariable = hash_typed ''v_''"

definition hashClass :: "host \<Rightarrow> CryptoHasher \<Rightarrow> string \<Rightarrow> error + (string \<times> CryptoHasher)" where
  "hashClass = hash_typed ''C_''"

definition hashNamespace :: "host \<Rightarrow> CryptoHasher \<Rightarrow> string \<Rightarrow> error + (string \<times> CryptoHasher)" where
  "hashNamespace = hash_typed ''N_''"

text \<open>
  A run of one hasher instance: any sequence of calls of its public methods. Each call
  yields its result, an exception leaves the instance as it was.
\<close>

datatype hasher_call =
    GenerateUniqueHash string "string set" string
  | HashFunction string
  | HashVariable string
  | HashClass string
  | HashNamespace string
  | SetSalt string

fun hasher_step :: "host \<Rightarrow> CryptoHasher \<Rightarrow> hasher_call \<Rightarrow> (error + string) option \<times> CryptoHasher" where
  "hasher_step h H (GenerateUniqueHash name used prefix) =
     (case generateUniqueHash h H name used prefix of
        Inl e \<Rightarrow> (Some (Inl e), H) | Inr (r, used', H') \<Rightarrow> (Some (Inr r), H'))"
| "hasher_step h H (HashFunction name) =
     (case hashFunction h H name of Inl e \<Rightarrow> (Some (Inl e), H) | Inr (r, H') \<Rightarrow> (Some (Inr r), H'))"
| "hasher_step h H (HashVariable name) =
     (case hashVariable h H name of Inl e \<Rightarrow> (Some (Inl e), H) | Inr (r, H') \<Rightarrow> (Some (Inr r), H'))"
| "hasher_step h H (HashClass name) =
     (case hashClass h H name of Inl e \<Rightarrow> (Some (Inl e), H) | Inr (r, H') \<Rightarrow> (Some (Inr r), H'))"
| "hasher_step h H (HashNamespace name) =
     (case hashNamespace h H name of Inl e \<Rightarrow> (Some (Inl e), H) | Inr (r, H') \<Rightarrow> (Some (Inr r), H'))"
| "hasher_step h H (SetSalt salt) = (None, setSalt H salt)"

fun hasher_run :: "host \<Rightarrow> CryptoHasher \<Rightarrow> hasher_call list \<Rightarrow> (error + string) option list \<times> CryptoHasher" where
  "hasher_run h H [] = ([], H)"
| "hasher_run h H (c # cs) =
     (case hasher_step h H c of
        (r, H') \<Rightarrow> (case hasher_run h H' cs of (rs, H'') \<Rightarrow> (r # rs, H'')))"

text \<open>The identifiers the successful calls of a run returned, in call order.\<close>

fun returned :: "(error + string) option list \<Rightarrow> string list" where
  "returned [] = []"
| "returned (Some (Inr r) # rs) = r # returned rs"
| "returned (_ # rs) = returned rs"


text \<open>
  A stand-in for the libraries, to run the model on concrete inputs: byte \<open>i\<close> of either
  digest of \<open>s\<close> is \<open>length s + i\<close>, the demangler knows three names,
  \<open>regex_search\<close> covers an anchored literal (\<^verbatim>\<open>^lit\<close>, a backslash quoting the next
  character), which is the form of every default pattern, and the sort leaves elements
  that the comparator does not order as they were.
\<close>

fun unquote :: "string \<Rightarrow> string" where
  "unquote [] = []"
| "unquote [c] = [c]"
| "unquote (c # d # cs) = (if c = CHR 0x5C then d # unquote cs else c # unquote (d # cs))"

definition test_host :: host where
  "test_host =
     \<lparr>SHA256_digest = (\<lambda>s i. of_nat (length s + i)),
      blake2b512_digest = (\<lambda>s i. of_nat (length s + i)),
      cxa_demangle = (\<lambda>s. if s = ''_ZN7MyClass6methodEv'' then Some ''MyClass::method()''
                           else if s = ''_ZN1a1b1cEv'' then Some ''a::b::c()''
                           else if s = ''_ZN1a1b1cEi'' then Some ''a::b::c(int)''
                           else None),
      regex_search = (\<lambda>text pattern.
         (case pattern of
            c # lit \<Rightarrow> c = CHR ''^'' \<and> take (length (unquote lit)) text = unquote lit
          | [] \<Rightarrow> True)),
      std_sort_choice = (\<lambda>v. v)\<rparr>"

subsubsection \<open>Names used to state the properties of the hasher\<close>

text \<open>The loop condition of \<^verbatim>\<open>generateUniqueHash\<close>: the name is in either set.\<close>

definition taken :: "CryptoHasher \<Rightarrow> string set \<Rightarrow> string \<Rightarrow> bool" where
  "taken H used_hashes full_name \<longleftrightarrow> full_name \<in> used_hashes \<or> full_name \<in> hasher_used_hashes H"

text \<open>The name tried first, and the name tried when the counter has the value \<open>counter\<close>.\<close>

definition primary_name :: "host \<Rightarrow> CryptoHasher \<Rightarrow> string \<Rightarrow> string \<Rightarrow> string" where
  "primary_name h H name prefix =
     applyPrefix (hasher_config H) (generateHash h (hasher_config H) name []) prefix"

definition retry_name :: "host \<Rightarrow> CryptoHasher \<Rightarrow> string \<Rightarrow> string \<Rightarrow> nat \<Rightarrow> string" where
  "retry_name h H name prefix counter =
     applyPrefix (hasher_config H)
       (generateHash h (hasher_config H) (name @ ''_'' @ to_string counter) []) prefix"

definition collision_error :: "string \<Rightarrow> error" where
  "collision_error name = runtime_error (''Too many hash collisions for: '' @ name)"

text \<open>The successful outcome: the name is returned and inserted into both sets.\<close>

definition unique_ok ::
  "CryptoHasher \<Rightarrow> string set \<Rightarrow> string \<Rightarrow> error + (string \<times> string set \<times> CryptoHasher)" where
  "unique_ok H used_hashes full_name =
     Inr (full_name, insert full_name used_hashes,
          H\<lparr>hasher_used_hashes := insert full_name (hasher_used_hashes H)\<rparr>)"

definition hex_char :: "char \<Rightarrow> bool" where
  "hex_char c \<longleftrightarrow> c \<in> set ''0123456789abcdef''"


text \<open>The number of hex characters a digest has before truncation.\<close>

definition digest_chars :: "HashConfig \<Rightarrow> nat" where
  "digest_chars cfg = (case algorithm cfg of SHA256 \<Rightarrow> 64 | BLAKE2B \<Rightarrow> 128 | SIPHASH \<Rightarrow> 16)"

text \<open>Hasher instances for concrete runs.\<close>

definition H0 :: CryptoHasher where
  "H0 = CryptoHasher_new default_HashConfig"

definition H0a :: CryptoHasher where
  "H0a = \<lparr>hasher_config = default_HashConfig, hasher_used_hashes = {''f_030405060708''}\<rparr>"

definition H0b :: CryptoHasher where
  "H0b = \<lparr>hasher_config = default_HashConfig,
          hasher_used_hashes = {''f_05060708090a'', ''f_030405060708''}\<rparr>"

definition Ha1 :: CryptoHasher where
  "Ha1 = \<lparr>hasher_config = default_HashConfig, hasher_used_hashes = {''a_020304050607''}\<rparr>"

definition Ha2 :: CryptoHasher where
  "Ha2 = \<lparr>hasher_config = default_HashConfig,
          hasher_used_hashes = {''a_040506070809'', ''a_020304050607''}\<rparr>"

definition Hz :: CryptoHasher where
  "Hz = CryptoHasher_new (default_HashConfig\<lparr>hash_length := 0\<rparr>)"

text \<open>
  An instance with the style \<^verbatim>\<open>UNDERSCORE\<close> and one with the style \<^verbatim>\<open>NONE\<close> and the
  hash length 0, each before and after one call; the default instance after a call of
  \<^verbatim>\<open>generateUniqueHash\<close> with the default prefix.
\<close>

definition Hu :: CryptoHasher where
  "Hu = CryptoHasher_new (default_HashConfig\<lparr>prefix_style := UNDERSCORE\<rparr>)"

definition Hu1 :: CryptoHasher where
  "Hu1 = \<lparr>hasher_config = default_HashConfig\<lparr>prefix_style := UNDERSCORE\<rparr>,
          hasher_used_hashes = {''_030405060708''}\<rparr>"





subsection \<open>\<^verbatim>\<open>std::map\<close> with string keys\<close>

text \<open>
  A \<^verbatim>\<open>std::map<std::string, T>\<close> is the list of its entries in key order, the order in
  which the sources iterate it. \<open>string_less\<close> is \<^verbatim>\<open>operator<\<close> on \<^verbatim>\<open>std::string\<close>:
  lexicographic on the bytes.
\<close>

type_synonym 'v std_map = "(string \<times> 'v) list"

fun string_less :: "string \<Rightarrow> string \<Rightarrow> bool" where
  "string_less [] [] = False"
| "string_less [] (y # ys) = True"
| "string_less (x # xs) [] = False"
| "string_less (x # xs) (y # ys) =
     ((of_char x :: nat) < of_char y \<or> (x = y \<and> string_less xs ys))"

text \<open>\<^verbatim>\<open>m.count(k)\<close> as a truth value, \<^verbatim>\<open>m[k]\<close> read, and \<^verbatim>\<open>m[k] = v\<close>.\<close>

definition map_count :: "'v std_map \<Rightarrow> string \<Rightarrow> bool" where
  "map_count m k \<longleftrightarrow> map_of m k \<noteq> None"

definition map_at :: "string std_map \<Rightarrow> string \<Rightarrow> string" where
  "map_at m k = (case map_of m k of Some v \<Rightarrow> v | None \<Rightarrow> [])"

fun map_set :: "'v std_map \<Rightarrow> string \<Rightarrow> 'v \<Rightarrow> 'v std_map" where
  "map_set [] k v = [(k, v)]"
| "map_set ((k', v') # m) k v =
     (if k = k' then (k, v) # m
      else if string_less k k' then (k, v) # (k', v') # m
      else (k', v') # map_set m k v)"

subsection \<open>Mangled-name codec: \<^verbatim>\<open>cpp_mangler.h\<close>, \<^verbatim>\<open>cpp_mangler.cpp\<close>\<close>

text \<open>The member \<^verbatim>\<open>prefix\<close> is the field \<open>abi_prefix\<close>.\<close>

record CppSymbolComponents =
  is_mangled :: bool
  abi_prefix :: string
  has_namespace :: bool
  namespace_name :: string
  has_class :: bool
  class_name :: string
  method_name :: string
  template_params :: "string list"
  parameter_types :: "string list"
  is_const :: bool
  is_virtual :: bool
  is_static :: bool
  return_type :: string
  is_vtable :: bool
  is_typeinfo :: bool
  is_typeinfo_name :: bool
  is_constructor :: bool
  is_destructor :: bool

text \<open>A default-constructed \<^verbatim>\<open>CppSymbolComponents\<close>.\<close>

definition CppSymbolComponents_new :: CppSymbolComponents where
  "CppSymbolComponents_new =
     \<lparr>is_mangled = False, abi_prefix = [], has_namespace = False, namespace_name = [],
      has_class = False, class_name = [], method_name = [], template_params = [],
      parameter_types = [], is_const = False, is_virtual = False, is_static = False,
      return_type = [], is_vtable = False, is_typeinfo = False, is_typeinfo_name = False,
      is_constructor = False, is_destructor = False\<rparr>"

subsubsection \<open>\<^verbatim>\<open>class CppDemangler\<close>\<close>

definition demangle :: "host \<Rightarrow> string \<Rightarrow> string" where
  "demangle h mangled_name =
     (case cxa_demangle h mangled_name of Some demangled \<Rightarrow> demangled | None \<Rightarrow> mangled_name)"

definition isCppMangled :: "string \<Rightarrow> bool" where
  "isCppMangled name \<longleftrightarrow> length name > 2 \<and> take 2 name = ''_Z''"

definition isSpecialSymbol :: "string \<Rightarrow> bool" where
  "isSpecialSymbol name \<longleftrightarrow>
     (if length name < 4 then False
      else take 4 name = ''_ZTV'' \<or> take 4 name = ''_ZTI'' \<or> take 4 name = ''_ZTS'')"

text \<open>The value \<^verbatim>\<open>c - '0'\<close> of a digit.\<close>

definition digit_value :: "char \<Rightarrow> 64 word" where
  "digit_value c = of_nat (of_char c - of_char (CHR ''0''))"

text \<open>
  The loop \<^verbatim>\<open>while (pos < n && isdigit(s[pos])) { len = len * 10 + (s[pos] - '0'); pos++; }\<close>
  on the text from \<open>pos\<close> on: it returns how many digits it consumed and the
  \<^verbatim>\<open>size_t\<close> value \<open>len\<close>, which wraps at \<open>2 ^ 64\<close>.
\<close>

fun read_length :: "string \<Rightarrow> 64 word \<Rightarrow> nat \<times> 64 word" where
  "read_length [] len = (0, len)"
| "read_length (c # cs) len =
     (if isdigit c
      then (case read_length cs (len * 10 + digit_value c) of (n, len') \<Rightarrow> (Suc n, len'))
      else (0, len))"

text \<open>\<^verbatim>\<open>pos + len\<close> in \<^verbatim>\<open>size_t\<close> arithmetic.\<close>

definition size_t_add :: "nat \<Rightarrow> 64 word \<Rightarrow> nat" where
  "size_t_add pos len = (pos + unat len) mod 2 ^ 64"

text \<open>
  The loop over the nested components in \<^verbatim>\<open>parse\<close>. \<^verbatim>\<open>pos += len\<close> can wrap around and
  move \<open>pos\<close> backwards, so the loop need not end: \<open>None\<close> is the run that does not return.
\<close>

partial_function (option) parse_nested ::
  "string \<Rightarrow> nat \<Rightarrow> CppSymbolComponents \<Rightarrow> CppSymbolComponents option"
where
  "parse_nested mangled_name pos components =
     (if pos < length mangled_name \<and> mangled_name ! pos \<noteq> CHR ''E'' then
        (case read_length (drop pos mangled_name) 0 of
           (n, len) \<Rightarrow>
             if len > 0 \<and> size_t_add (pos + n) len \<le> length mangled_name then
               parse_nested mangled_name (size_t_add (pos + n) len)
                 (if namespace_name components = []
                  then components\<lparr>namespace_name := take (unat len) (drop (pos + n) mangled_name)\<rparr>
                  else if \<not> has_class components
                  then components\<lparr>class_name := take (unat len) (drop (pos + n) mangled_name),
                                   has_class := True\<rparr>
                  else components\<lparr>method_name := take (unat len) (drop (pos + n) mangled_name)\<rparr>)
             else Some components)
      else Some components)"

declare parse_nested.simps [code]

definition parse :: "host \<Rightarrow> string \<Rightarrow> CppSymbolComponents option" where
  "parse h mangled_name =
     (if \<not> isCppMangled mangled_name then Some (CppSymbolComponents_new\<lparr>is_mangled := False\<rparr>)
      else if take 4 mangled_name = ''_ZTV''
      then Some (CppSymbolComponents_new\<lparr>is_mangled := True, abi_prefix := ''_Z'', is_vtable := True\<rparr>)
      else if take 4 mangled_name = ''_ZTI''
      then Some (CppSymbolComponents_new\<lparr>is_mangled := True, abi_prefix := ''_Z'', is_typeinfo := True\<rparr>)
      else if take 4 mangled_name = ''_ZTS''
      then Some (CppSymbolComponents_new\<lparr>is_mangled := True, abi_prefix := ''_Z'',
                   is_typeinfo_name := True\<rparr>)
      else if 2 < length mangled_name \<and> mangled_name ! 2 = CHR ''N''
      then parse_nested mangled_name 3
             (CppSymbolComponents_new\<lparr>is_mangled := True, abi_prefix := ''_Z'',
                method_name := demangle h mangled_name, has_namespace := True\<rparr>)
      else Some (CppSymbolComponents_new\<lparr>is_mangled := True, abi_prefix := ''_Z'',
                   method_name := demangle h mangled_name\<rparr>))"

subsubsection \<open>\<^verbatim>\<open>class CppMangler\<close>\<close>

text \<open>
  The members \<^verbatim>\<open>mapping_\<close>, \<^verbatim>\<open>used_hashes_\<close> and the three caches. The member
  \<^verbatim>\<open>hasher_\<close> is a reference, so the hasher is an argument of every method; the codec
  only calls its \<^verbatim>\<open>generateHash\<close>, which reads the configuration.
\<close>

record CppMangler =
  mangler_mapping :: "string std_map"
  mangler_used_hashes :: "string set"
  namespace_cache :: "string std_map"
  class_cache :: "string std_map"
  method_cache :: "string std_map"

definition CppMangler_new :: CppMangler where
  "CppMangler_new =
     \<lparr>mangler_mapping = [], mangler_used_hashes = {}, namespace_cache = [], class_cache = [],
      method_cache = []\<rparr>"

definition obfuscateNamespace :: "host \<Rightarrow> CryptoHasher \<Rightarrow> CppMangler \<Rightarrow> string \<Rightarrow> string \<times> CppMangler" where
  "obfuscateNamespace h H M ns =
     (if map_count (namespace_cache M) ns then (map_at (namespace_cache M) ns, M)
      else let obfuscated = ''N'' @ take 8 (generateHash h (hasher_config H) ns ''ns'')
           in (obfuscated, M\<lparr>namespace_cache := map_set (namespace_cache M) ns obfuscated\<rparr>))"

definition obfuscateClassName :: "host \<Rightarrow> CryptoHasher \<Rightarrow> CppMangler \<Rightarrow> string \<Rightarrow> string \<times> CppMangler" where
  "obfuscateClassName h H M cname =
     (if map_count (class_cache M) cname then (map_at (class_cache M) cname, M)
      else let obfuscated = ''C'' @ take 10 (generateHash h (hasher_config H) cname ''class'')
           in (obfuscated, M\<lparr>class_cache := map_set (class_cache M) cname obfuscated\<rparr>))"

definition obfuscateMethodName :: "host \<Rightarrow> CryptoHasher \<Rightarrow> CppMangler \<Rightarrow> string \<Rightarrow> string \<times> CppMangler" where
  "obfuscateMethodName h H M mname =
     (if map_count (method_cache M) mname then (map_at (method_cache M) mname, M)
      else let obfuscated = ''M'' @ take 10 (generateHash h (hasher_config H) mname ''method'')
           in (obfuscated, M\<lparr>method_cache := map_set (method_cache M) mname obfuscated\<rparr>))"

definition obfuscateTemplateParams :: "string list \<Rightarrow> string" where
  "obfuscateTemplateParams params = (if params = [] then [] else ''I'' @ concat params @ ''E'')"

definition encodeLengthPrefix :: "string \<Rightarrow> string" where
  "encodeLengthPrefix name = to_string (length name) @ name"

definition encodeParameters :: "string list \<Rightarrow> string" where
  "encodeParameters params = (if concat params = [] then ''v'' else concat params)"

definition reconstructMangled ::
  "host \<Rightarrow> CryptoHasher \<Rightarrow> CppMangler \<Rightarrow> CppSymbolComponents \<Rightarrow> string \<times> CppMangler" where
  "reconstructMangled h H M components =
     (case
        (if has_namespace components \<or> has_class components then
           (case (if has_namespace components \<and> namespace_name components \<noteq> []
                  then (case obfuscateNamespace h H M (namespace_name components) of
                          (obf_ns, M1) \<Rightarrow> (''_ZN'' @ encodeLengthPrefix obf_ns, M1))
                  else (''_ZN'', M)) of
              (result1, M1) \<Rightarrow>
                (case (if has_class components \<and> class_name components \<noteq> []
                       then (case obfuscateClassName h H M1 (class_name components) of
                               (obf_class, M2) \<Rightarrow> (result1 @ encodeLengthPrefix obf_class, M2))
                       else (result1, M1)) of
                   (result2, M2) \<Rightarrow>
                     (case (if method_name components \<noteq> []
                            then (case obfuscateMethodName h H M2 (method_name components) of
                                    (obf_method, M3) \<Rightarrow>
                                      (result2 @ encodeLengthPrefix obf_method, M3))
                            else (result2, M2)) of
                        (result3, M3) \<Rightarrow> (result3 @ ''E'', M3))))
         else (''_Z'' @ encodeLengthPrefix
                          (generateHash h (hasher_config H) (method_name components) []), M)) of
        (result, M') \<Rightarrow> (result @ encodeParameters (parameter_types components), M'))"

definition obfuscateVTable :: "host \<Rightarrow> CryptoHasher \<Rightarrow> CppMangler \<Rightarrow> string \<Rightarrow> string \<times> CppMangler" where
  "obfuscateVTable h H M vtable_symbol =
     (if map_count (mangler_mapping M) vtable_symbol
      then (map_at (mangler_mapping M) vtable_symbol, M)
      else
        (case read_length (drop 4 vtable_symbol) 0 of
           (pos, len) \<Rightarrow>
             if len > 0 \<and> size_t_add pos len \<le> length (drop 4 vtable_symbol) then
               (case obfuscateClassName h H M (take (unat len) (drop pos (drop 4 vtable_symbol))) of
                  (obfuscated_class, M1) \<Rightarrow>
                    (''_ZTV'' @ encodeLengthPrefix obfuscated_class,
                     M1\<lparr>mangler_mapping :=
                          map_set (mangler_mapping M1) vtable_symbol
                            (''_ZTV'' @ encodeLengthPrefix obfuscated_class)\<rparr>))
             else
               (''_ZTV'' @ generateHash h (hasher_config H) vtable_symbol ''vtable'',
                M\<lparr>mangler_mapping :=
                     map_set (mangler_mapping M) vtable_symbol
                       (''_ZTV'' @ generateHash h (hasher_config H) vtable_symbol ''vtable'')\<rparr>)))"

definition obfuscateTypeInfo :: "host \<Rightarrow> CryptoHasher \<Rightarrow> CppMangler \<Rightarrow> string \<Rightarrow> string \<times> CppMangler" where
  "obfuscateTypeInfo h H M typeinfo_symbol =
     (if map_count (mangler_mapping M) typeinfo_symbol
      then (map_at (mangler_mapping M) typeinfo_symbol, M)
      else
        let obfuscated = take 4 typeinfo_symbol
              @ take 10 (generateHash h (hasher_config H) typeinfo_symbol ''typeinfo'')
        in (obfuscated,
            M\<lparr>mangler_mapping := map_set (mangler_mapping M) typeinfo_symbol obfuscated\<rparr>))"

definition obfuscateCppSymbol ::
  "host \<Rightarrow> CryptoHasher \<Rightarrow> CppMangler \<Rightarrow> string \<Rightarrow> (string \<times> CppMangler) option" where
  "obfuscateCppSymbol h H M mangled_name =
     (if map_count (mangler_mapping M) mangled_name
      then Some (map_at (mangler_mapping M) mangled_name, M)
      else
        (case parse h mangled_name of
           None \<Rightarrow> None
         | Some components \<Rightarrow>
             if \<not> is_mangled components then Some (mangled_name, M)
             else if is_vtable components then Some (obfuscateVTable h H M mangled_name)
             else if is_typeinfo components then Some (obfuscateTypeInfo h H M mangled_name)
             else if is_typeinfo_name components then Some (obfuscateTypeInfo h H M mangled_name)
             else
               (case reconstructMangled h H M components of
                  (obfuscated, M') \<Rightarrow>
                    Some (obfuscated,
                          M'\<lparr>mangler_mapping :=
                               map_set (mangler_mapping M') mangled_name obfuscated\<rparr>))))"

subsection \<open>IR driver: \<^verbatim>\<open>SymbolObfuscationPass.h\<close>, \<^verbatim>\<open>SymbolObfuscationPass.cpp\<close>\<close>

text \<open>
  What the pass reads of an \<^verbatim>\<open>llvm::Module\<close>: its name, its source file name, and the
  names of its functions, global variables and aliases in iteration order, each function
  and global with \<^verbatim>\<open>isDeclaration()\<close>. \<^verbatim>\<open>setName\<close> belongs to the IR library; the
  model keeps the names the pass hands to it in \<open>pass_mapping\<close>.
\<close>

record Module =
  ir_name :: string
  ir_source_file_name :: string
  ir_functions :: "(string \<times> bool) list"
  ir_globals :: "(string \<times> bool) list"
  ir_aliases :: "string list"

text \<open>The members of the pass, in the order of the header.\<close>

record SymbolObfuscationPass =
  pass_preserve_main :: bool
  pass_preserve_stdlib :: bool
  pass_obfuscate_globals :: bool
  pass_generate_map :: bool
  pass_map_file_path :: string
  pass_salt :: string
  pass_hasher :: CryptoHasher
  pass_cpp_mangler :: CppMangler
  pass_mapping :: "string std_map"
  pass_used_names :: "string set"
  pass_preserve_symbols :: "string set"

definition initializePreserveSet :: "string set" where
  "initializePreserveSet =
     {''main'', ''_start'', ''__libc_start_main'', ''_init'', ''_fini'', ''__attribute__'',
      ''__cxa_atexit'', ''__cxa_finalize'', ''__dso_handle'', ''__gxx_personality_v0'',
      ''_GLOBAL__sub_I_''}"

definition SymbolObfuscationPass_new :: "string \<Rightarrow> SymbolObfuscationPass" where
  "SymbolObfuscationPass_new salt =
     \<lparr>pass_preserve_main = True, pass_preserve_stdlib = True, pass_obfuscate_globals = True,
      pass_generate_map = True, pass_map_file_path = ''symbol_map.json'', pass_salt = salt,
      pass_hasher = CryptoHasher_new
        \<lparr>algorithm = SHA256, prefix_style = TYPED, hash_length = 12, global_salt = salt,
         deterministic = True\<rparr>,
      pass_cpp_mangler = CppMangler_new, pass_mapping = [], pass_used_names = {},
      pass_preserve_symbols = initializePreserveSet\<rparr>"

definition setPreserveMain :: "SymbolObfuscationPass \<Rightarrow> bool \<Rightarrow> SymbolObfuscationPass" where
  "setPreserveMain P preserve = P\<lparr>pass_preserve_main := preserve\<rparr>"

definition setPreserveStdlib :: "SymbolObfuscationPass \<Rightarrow> bool \<Rightarrow> SymbolObfuscationPass" where
  "setPreserveStdlib P preserve = P\<lparr>pass_preserve_stdlib := preserve\<rparr>"

definition stdlib_funcs :: "string set" where
  "stdlib_funcs =
     {''malloc'', ''free'', ''calloc'', ''realloc'', ''printf'', ''scanf'', ''fprintf'',
      ''sprintf'', ''memcpy'', ''memset'', ''strlen'', ''strcmp'', ''exit'', ''abort'',
      ''signal'', ''sigaction''}"

definition isSystemSymbol :: "SymbolObfuscationPass \<Rightarrow> string \<Rightarrow> bool" where
  "isSystemSymbol P name \<longleftrightarrow>
     (if length name \<ge> 2 \<and> name ! 0 = CHR ''_'' \<and> name ! 1 = CHR ''_'' then True
      else if take 5 name = ''__cxa'' then True
      else if pass_preserve_stdlib P then name \<in> stdlib_funcs
      else False)"

definition pass_shouldPreserve :: "SymbolObfuscationPass \<Rightarrow> string \<Rightarrow> bool" where
  "pass_shouldPreserve P name \<longleftrightarrow>
     (if name \<in> pass_preserve_symbols P then True
      else if pass_preserve_main P \<and> name = ''main'' then True
      else if isSystemSymbol P name then True
      else if take 5 name = ''llvm.'' then True
      else False)"

definition generateModuleSalt :: "host \<Rightarrow> Module \<Rightarrow> string" where
  "generateModuleSalt h M =
     generateHash h default_HashConfig
       (ir_name M @ (if ir_source_file_name M \<noteq> [] then ir_source_file_name M else []))
       ''module_salt''"

text \<open>
  A method of the pass that calls the hasher or the codec has three outcomes: it does not
  return (\<open>None\<close>, from \<^verbatim>\<open>parse\<close>), it throws (\<open>Some (Inl e)\<close>, from
  \<^verbatim>\<open>generateUniqueHash\<close>), or it returns.
\<close>

definition obfuscate_name ::
  "string \<Rightarrow> host \<Rightarrow> SymbolObfuscationPass \<Rightarrow> string
     \<Rightarrow> (error + (string \<times> SymbolObfuscationPass)) option" where
  "obfuscate_name c_prefix h P original_name =
     (if isCppMangled original_name then
        (case obfuscateCppSymbol h (pass_hasher P) (pass_cpp_mangler P) original_name of
           None \<Rightarrow> None
         | Some (obfuscated, M') \<Rightarrow> Some (Inr (obfuscated, P\<lparr>pass_cpp_mangler := M'\<rparr>)))
      else
        (case generateUniqueHash h (pass_hasher P) original_name (pass_used_names P) c_prefix of
           Inl e \<Rightarrow> Some (Inl e)
         | Inr (obfuscated, used', H') \<Rightarrow>
             Some (Inr (obfuscated, P\<lparr>pass_used_names := used', pass_hasher := H'\<rparr>))))"

definition obfuscateFunctionName ::
  "host \<Rightarrow> SymbolObfuscationPass \<Rightarrow> string \<Rightarrow> (error + (string \<times> SymbolObfuscationPass)) option" where
  "obfuscateFunctionName = obfuscate_name ''f_''"

definition obfuscateGlobalName ::
  "host \<Rightarrow> SymbolObfuscationPass \<Rightarrow> string \<Rightarrow> (error + (string \<times> SymbolObfuscationPass)) option" where
  "obfuscateGlobalName = obfuscate_name ''v_''"

fun obfuscateFunctions ::
  "host \<Rightarrow> SymbolObfuscationPass \<Rightarrow> (string \<times> bool) list \<Rightarrow> (error + SymbolObfuscationPass) option" where
  "obfuscateFunctions h P [] = Some (Inr P)"
| "obfuscateFunctions h P ((original_name, is_declaration) # fs) =
     (if is_declaration then obfuscateFunctions h P fs
      else if pass_shouldPreserve P original_name then obfuscateFunctions h P fs
      else
        (case obfuscateFunctionName h P original_name of
           None \<Rightarrow> None
         | Some (Inl e) \<Rightarrow> Some (Inl e)
         | Some (Inr (obfuscated_name, P')) \<Rightarrow>
             obfuscateFunctions h
               (P'\<lparr>pass_mapping := map_set (pass_mapping P') original_name obfuscated_name\<rparr>) fs))"

fun obfuscateGlobalVariables ::
  "host \<Rightarrow> SymbolObfuscationPass \<Rightarrow> (string \<times> bool) list \<Rightarrow> (error + SymbolObfuscationPass) option" where
  "obfuscateGlobalVariables h P [] = Some (Inr P)"
| "obfuscateGlobalVariables h P ((original_name, is_declaration) # gs) =
     (if is_declaration then obfuscateGlobalVariables h P gs
      else if pass_shouldPreserve P original_name then obfuscateGlobalVariables h P gs
      else
        (case obfuscateGlobalName h P original_name of
           None \<Rightarrow> None
         | Some (Inl e) \<Rightarrow> Some (Inl e)
         | Some (Inr (obfuscated_name, P')) \<Rightarrow>
             obfuscateGlobalVariables h
               (P'\<lparr>pass_mapping := map_set (pass_mapping P') original_name obfuscated_name\<rparr>) gs))"

fun obfuscateAliases ::
  "host \<Rightarrow> SymbolObfuscationPass \<Rightarrow> string list \<Rightarrow> (error + SymbolObfuscationPass) option" where
  "obfuscateAliases h P [] = Some (Inr P)"
| "obfuscateAliases h P (original_name # as) =
     (if pass_shouldPreserve P original_name then obfuscateAliases h P as
      else
        (case generateUniqueHash h (pass_hasher P) original_name (pass_used_names P) ''a_'' of
           Inl e \<Rightarrow> Some (Inl e)
         | Inr (obfuscated_name, used', H') \<Rightarrow>
             obfuscateAliases h
               (P\<lparr>pass_used_names := used', pass_hasher := H',
                  pass_mapping := map_set (pass_mapping P) original_name obfuscated_name\<rparr>) as))"

text \<open>
  \<^verbatim>\<open>run\<close>, up to the point where the mapping is saved: the pass with the final mapping.
\<close>

definition run :: "host \<Rightarrow> SymbolObfuscationPass \<Rightarrow> Module \<Rightarrow> (error + SymbolObfuscationPass) option" where
  "run h P M =
     (let P0 = (if pass_salt P = []
                then P\<lparr>pass_salt := generateModuleSalt h M,
                       pass_hasher := setSalt (pass_hasher P) (generateModuleSalt h M)\<rparr>
                else P)
      in case obfuscateFunctions h P0 (ir_functions M) of
           None \<Rightarrow> None
         | Some (Inl e) \<Rightarrow> Some (Inl e)
         | Some (Inr P1) \<Rightarrow>
             (case (if pass_obfuscate_globals P1
                    then obfuscateGlobalVariables h P1 (ir_globals M)
                    else Some (Inr P1)) of
                None \<Rightarrow> None
              | Some (Inl e) \<Rightarrow> Some (Inl e)
              | Some (Inr P2) \<Rightarrow> obfuscateAliases h P2 (ir_aliases M)))"

subsection \<open>Source-text driver: \<^verbatim>\<open>c_obfuscator.h\<close>, \<^verbatim>\<open>c_obfuscator.cpp\<close>\<close>

datatype SymbolType =
  FUNCTION | GLOBAL_VAR | STATIC_VAR | LOCAL_VAR | TYPEDEF | STRUCT | ENUM | UNKNOWN

datatype Linkage = EXTERNAL | INTERNAL | WEAK | COMMON

text \<open>
  \<^verbatim>\<open>struct SymbolMapping\<close>; the members \<^verbatim>\<open>type\<close> and \<^verbatim>\<open>size\<close> are the fields
  \<open>symbol_type\<close> and \<open>symbol_size\<close>. \<^verbatim>\<open>uint64_t\<close> and \<^verbatim>\<open>size_t\<close> are 64-bit words,
  \<^verbatim>\<open>int\<close> is a 32-bit word read as signed.
\<close>

record SymbolMapping =
  original_name :: string
  obfuscated_name :: string
  symbol_type :: SymbolType
  linkage :: Linkage
  address :: "64 word"
  symbol_size :: "64 word"
  source_file :: string
  line_number :: "32 word"

text \<open>\<^verbatim>\<open>static_cast<int>\<close> on the two enumerations, and the casts back.\<close>

fun SymbolType_to_int :: "SymbolType \<Rightarrow> 32 word" where
  "SymbolType_to_int FUNCTION = 0"
| "SymbolType_to_int GLOBAL_VAR = 1"
| "SymbolType_to_int STATIC_VAR = 2"
| "SymbolType_to_int LOCAL_VAR = 3"
| "SymbolType_to_int TYPEDEF = 4"
| "SymbolType_to_int STRUCT = 5"
| "SymbolType_to_int ENUM = 6"
| "SymbolType_to_int UNKNOWN = 7"

text \<open>
  An \<^verbatim>\<open>int\<close> outside 0..7 cast to \<^verbatim>\<open>SymbolType\<close> names no enumerator; every switch
  in the sources sends such a value to its default branch, as it does \<open>UNKNOWN\<close>.
\<close>

definition SymbolType_of_int :: "32 word \<Rightarrow> SymbolType" where
  "SymbolType_of_int i =
     (if i = 0 then FUNCTION else if i = 1 then GLOBAL_VAR else if i = 2 then STATIC_VAR
      else if i = 3 then LOCAL_VAR else if i = 4 then TYPEDEF else if i = 5 then STRUCT
      else if i = 6 then ENUM else UNKNOWN)"

fun Linkage_to_int :: "Linkage \<Rightarrow> 32 word" where
  "Linkage_to_int EXTERNAL = 0"
| "Linkage_to_int INTERNAL = 1"
| "Linkage_to_int WEAK = 2"
| "Linkage_to_int COMMON = 3"

definition Linkage_of_int :: "32 word \<Rightarrow> Linkage" where
  "Linkage_of_int i =
     (if i = 0 then EXTERNAL else if i = 1 then INTERNAL else if i = 2 then WEAK else COMMON)"

fun HashAlgorithm_to_int :: "HashAlgorithm \<Rightarrow> 32 word" where
  "HashAlgorithm_to_int SHA256 = 0"
| "HashAlgorithm_to_int BLAKE2B = 1"
| "HashAlgorithm_to_int SIPHASH = 2"

record ObfuscationConfig =
  preserve_symbols :: "string set"
  preserve_patterns :: "string list"
  aggressive_static :: bool
  obfuscate_strings :: bool
  generate_map :: bool
  map_file_path :: string
  hash_config :: HashConfig

text \<open>The member initialisers of \<^verbatim>\<open>struct ObfuscationConfig\<close>.\<close>

definition default_ObfuscationConfig :: ObfuscationConfig where
  "default_ObfuscationConfig =
     \<lparr>preserve_symbols =
        {''main'', ''_start'', ''__libc_start_main'', ''signal'', ''sigaction'', ''_init'',
         ''_fini'', ''__attribute__''},
      preserve_patterns = [''^__'', ''^_Z'', [CHR ''^'', CHR ''l'', CHR ''l'', CHR ''v'', CHR ''m'',
         CHR 0x5C, CHR ''.''], ''^__cxa_''],
      aggressive_static = True, obfuscate_strings = False, generate_map = True,
      map_file_path = ''symbol_map.json'', hash_config = default_HashConfig\<rparr>"

text \<open>The members \<^verbatim>\<open>config_\<close>, \<^verbatim>\<open>hasher_\<close>, \<^verbatim>\<open>mappings_\<close> and \<^verbatim>\<open>used_names_\<close>.\<close>

record CSymbolObfuscator =
  obf_config :: ObfuscationConfig
  obf_hasher :: CryptoHasher
  obf_mappings :: "SymbolMapping list"
  obf_used_names :: "string set"

definition CSymbolObfuscator_new :: "ObfuscationConfig \<Rightarrow> CSymbolObfuscator" where
  "CSymbolObfuscator_new config =
     \<lparr>obf_config = config, obf_hasher = CryptoHasher_new (hash_config config),
      obf_mappings = [], obf_used_names = {}\<rparr>"

definition cpp_keywords :: "string set" where
  "cpp_keywords =
     {''if'', ''else'', ''for'', ''while'', ''do'', ''switch'', ''case'', ''default'',
      ''break'', ''continue'', ''return'', ''goto'',
      ''int'', ''char'', ''float'', ''double'', ''void'', ''long'', ''short'', ''signed'',
      ''unsigned'',
      ''const'', ''static'', ''extern'', ''register'', ''volatile'', ''auto'',
      ''struct'', ''union'', ''enum'', ''typedef'',
      ''sizeof'', ''typeof'',
      ''class'', ''public'', ''private'', ''protected'', ''virtual'', ''friend'',
      ''namespace'', ''using'', ''template'', ''typename'',
      ''new'', ''delete'', ''this'', ''operator'',
      ''try'', ''catch'', ''throw'',
      ''true'', ''false'', ''nullptr'', ''NULL'',
      ''and'', ''or'', ''not'', ''xor'',
      ''main''}"

definition matchesPreservePattern :: "host \<Rightarrow> CSymbolObfuscator \<Rightarrow> string \<Rightarrow> bool" where
  "matchesPreservePattern h B symbol_name \<longleftrightarrow>
     list_ex (\<lambda>pattern. regex_search h symbol_name pattern) (preserve_patterns (obf_config B))"

definition shouldPreserve :: "host \<Rightarrow> CSymbolObfuscator \<Rightarrow> string \<Rightarrow> bool" where
  "shouldPreserve h B symbol_name \<longleftrightarrow>
     (if symbol_name \<in> cpp_keywords then True
      else if symbol_name \<in> preserve_symbols (obf_config B) then True
      else if matchesPreservePattern h B symbol_name then True
      else False)"

text \<open>
  \<^verbatim>\<open>parseDeclarations\<close>. The two \<^verbatim>\<open>std::regex_search\<close> loops belong to the library: the
  names they capture (\<^verbatim>\<open>match[2]\<close>), in order, are the arguments \<open>func_matches\<close> and
  \<open>var_matches\<close>.
\<close>

definition declared :: "SymbolType \<Rightarrow> string \<Rightarrow> SymbolMapping" where
  "declared t name =
     \<lparr>original_name = name, obfuscated_name = [], symbol_type = t, linkage = EXTERNAL,
      address = 0, symbol_size = 0, source_file = [], line_number = 0\<rparr>"

definition parseDeclarations ::
  "host \<Rightarrow> CSymbolObfuscator \<Rightarrow> string list \<Rightarrow> string list \<Rightarrow> SymbolMapping list" where
  "parseDeclarations h B func_matches var_matches =
     map (declared FUNCTION) (filter (\<lambda>name. \<not> shouldPreserve h B name) func_matches)
     @ map (declared GLOBAL_VAR) (filter (\<lambda>name. \<not> shouldPreserve h B name) var_matches)"

text \<open>
  \<^verbatim>\<open>generateMapping\<close>: the loop over the symbols, with the map built so far. It returns the
  map and the obfuscator, or the exception of the hasher.
\<close>

fun generateMapping_loop ::
  "host \<Rightarrow> CSymbolObfuscator \<Rightarrow> string std_map \<Rightarrow> SymbolMapping list
     \<Rightarrow> error + (string std_map \<times> CSymbolObfuscator)" where
  "generateMapping_loop h B mapping [] = Inr (mapping, B)"
| "generateMapping_loop h B mapping (symbol # symbols) =
     (if shouldPreserve h B (original_name symbol) then generateMapping_loop h B mapping symbols
      else
        (case (case symbol_type symbol of
                 FUNCTION \<Rightarrow> hashFunction h (obf_hasher B) (original_name symbol)
               | GLOBAL_VAR \<Rightarrow> hashVariable h (obf_hasher B) (original_name symbol)
               | STATIC_VAR \<Rightarrow> hashVariable h (obf_hasher B) (original_name symbol)
               | STRUCT \<Rightarrow> hashClass h (obf_hasher B) (original_name symbol)
               | _ \<Rightarrow> hashVariable h (obf_hasher B) (original_name symbol)) of
           Inl e \<Rightarrow> Inl e
         | Inr (obfuscated, H') \<Rightarrow>
             generateMapping_loop h
               (B\<lparr>obf_hasher := H',
                  obf_used_names := insert obfuscated (obf_used_names B),
                  obf_mappings := obf_mappings B @ [symbol\<lparr>obfuscated_name := obfuscated\<rparr>]\<rparr>)
               (map_set mapping (original_name symbol) obfuscated) symbols))"

definition generateMapping ::
  "host \<Rightarrow> CSymbolObfuscator \<Rightarrow> SymbolMapping list
     \<Rightarrow> error + (string std_map \<times> CSymbolObfuscator)" where
  "generateMapping h B symbols = generateMapping_loop h B [] symbols"

subsubsection \<open>Text rewriter\<close>

definition isIdentifierChar :: "char \<Rightarrow> bool" where
  "isIdentifierChar c \<longleftrightarrow> isalnum c \<or> c = CHR ''_''"

definition isWholeWord :: "string \<Rightarrow> nat \<Rightarrow> string \<Rightarrow> bool" where
  "isWholeWord text pos word \<longleftrightarrow>
     (if pos > 0 \<and> isIdentifierChar (text ! (pos - 1)) then False
      else if pos + length word < length text \<and> isIdentifierChar (text ! (pos + length word))
      then False
      else True)"

text \<open>
  \<^verbatim>\<open>std::string::find(str, pos)\<close>: the first position from \<open>pos\<close> on where \<open>str\<close>
  occurs, \<open>None\<close> for \<^verbatim>\<open>npos\<close>. \<open>first_match str s\<close> is the offset of the first
  occurrence in \<open>s\<close>.
\<close>

fun first_match :: "string \<Rightarrow> string \<Rightarrow> nat option" where
  "first_match str [] = (if str = [] then Some 0 else None)"
| "first_match str (c # cs) =
     (if take (length str) (c # cs) = str then Some 0 else map_option Suc (first_match str cs))"

definition string_find :: "string \<Rightarrow> string \<Rightarrow> nat \<Rightarrow> nat option" where
  "string_find s str pos =
     (if pos > length s then None else map_option ((+) pos) (first_match str (drop pos s)))"

text \<open>\<^verbatim>\<open>s.replace(pos, len, str)\<close> for \<open>pos + len \<le> length s\<close>.\<close>

definition string_replace :: "string \<Rightarrow> nat \<Rightarrow> nat \<Rightarrow> string \<Rightarrow> string" where
  "string_replace s pos len str = take pos s @ str @ drop (pos + len) s"

text \<open>
  The loop of \<^verbatim>\<open>replaceSymbol\<close>. With an empty \<open>original\<close> the position need not
  advance, so the loop need not end: \<open>None\<close> is the run that does not return.
\<close>

partial_function (option) replaceSymbol_loop ::
  "string \<Rightarrow> string \<Rightarrow> string \<Rightarrow> nat \<Rightarrow> string option"
where
  "replaceSymbol_loop code original obfuscated pos =
     (case string_find code original pos of
        None \<Rightarrow> Some code
      | Some p \<Rightarrow>
          if isWholeWord code p original
          then replaceSymbol_loop (string_replace code p (length original) obfuscated)
                 original obfuscated (p + length obfuscated)
          else replaceSymbol_loop code original obfuscated (p + length original))"

declare replaceSymbol_loop.simps [code]

definition replaceSymbol :: "string \<Rightarrow> string \<Rightarrow> string \<Rightarrow> string option" where
  "replaceSymbol code original obfuscated = replaceSymbol_loop code original obfuscated 0"

text \<open>
  \<^verbatim>\<open>applyObfuscation\<close>. The vector is filled from the map in key order and sorted by
  \<^verbatim>\<open>std::sort\<close> with the comparator \<^verbatim>\<open>a.first.length() > b.first.length()\<close>. The result
  is a rearrangement of the vector in which no entry has a longer original than one before
  it; among originals of equal length the order is the library's. In the model the library
  first picks an arrangement (\<open>std_sort_choice\<close>; a pick that is no rearrangement of the
  vector is ignored), which is then sorted stably. Every order \<^verbatim>\<open>std::sort\<close> may deliver
  is the result for some choice, and no other order is.
\<close>

definition sorted_mapping :: "host \<Rightarrow> string std_map \<Rightarrow> (string \<times> string) list" where
  "sorted_mapping h mapping =
     sort_key (\<lambda>entry. - int (length (fst entry)))
       (if mset (std_sort_choice h mapping) = mset mapping then std_sort_choice h mapping
        else mapping)"

fun replace_each :: "string \<Rightarrow> (string \<times> string) list \<Rightarrow> string option" where
  "replace_each code [] = Some code"
| "replace_each code ((original, obfuscated) # entries) =
     (case replaceSymbol code original obfuscated of
        None \<Rightarrow> None
      | Some code' \<Rightarrow> replace_each code' entries)"

definition applyObfuscation :: "host \<Rightarrow> string \<Rightarrow> string std_map \<Rightarrow> string option" where
  "applyObfuscation h source_code mapping = replace_each source_code (sorted_mapping h mapping)"

subsubsection \<open>Mapping store\<close>

text \<open>
  A document of the JSON library. A number is its value: the accessors below give the same
  result for a signed and an unsigned representation of one value. An object is the list
  of its members in key order.
\<close>

datatype json =
    JNull
  | JNumber int
  | JString string
  | JArray "json list"
  | JObject "(string \<times> json) list"

text \<open>\<^verbatim>\<open>value[key]\<close> on a constant value: the member, or null.\<close>

definition json_member :: "json \<Rightarrow> string \<Rightarrow> json" where
  "json_member v key =
     (case v of JObject members \<Rightarrow> (case map_of members key of Some x \<Rightarrow> x | None \<Rightarrow> JNull)
      | _ \<Rightarrow> JNull)"

text \<open>The values a range-based \<^verbatim>\<open>for\<close> over a \<^verbatim>\<open>Json::Value\<close> visits.\<close>

definition json_elements :: "json \<Rightarrow> json list" where
  "json_elements v =
     (case v of JArray elements \<Rightarrow> elements | JObject members \<Rightarrow> map snd members | _ \<Rightarrow> [])"

definition json_keys :: "json \<Rightarrow> string list" where
  "json_keys v = (case v of JObject members \<Rightarrow> map fst members | _ \<Rightarrow> [])"

text \<open>
  \<^verbatim>\<open>asString\<close>, \<^verbatim>\<open>asInt\<close> and \<^verbatim>\<open>asUInt64\<close>: null converts to the empty string and to
  0, a number converts when it is in the range of the target type, anything else throws.
\<close>

definition int_to_string :: "int \<Rightarrow> string" where
  "int_to_string i = (if i < 0 then ''-'' @ to_string (nat (- i)) else to_string (nat i))"

definition asString :: "json \<Rightarrow> error + string" where
  "asString v =
     (case v of JNull \<Rightarrow> Inr [] | JString s \<Rightarrow> Inr s | JNumber i \<Rightarrow> Inr (int_to_string i)
      | _ \<Rightarrow> Inl LogicError)"

definition asInt :: "json \<Rightarrow> error + 32 word" where
  "asInt v =
     (case v of JNull \<Rightarrow> Inr 0
      | JNumber i \<Rightarrow> if - (2 ^ 31) \<le> i \<and> i < 2 ^ 31 then Inr (of_int i) else Inl LogicError
      | _ \<Rightarrow> Inl LogicError)"

definition asUInt64 :: "json \<Rightarrow> error + 64 word" where
  "asUInt64 v =
     (case v of JNull \<Rightarrow> Inr 0
      | JNumber i \<Rightarrow> if 0 \<le> i \<and> i < 2 ^ 64 then Inr (of_int i) else Inl LogicError
      | _ \<Rightarrow> Inl LogicError)"

definition symbol_to_json :: "SymbolMapping \<Rightarrow> json" where
  "symbol_to_json mapping =
     JObject
       (map_set (map_set (map_set (map_set (map_set (map_set (map_set (map_set []
          ''original'' (JString (original_name mapping)))
          ''obfuscated'' (JString (obfuscated_name mapping)))
          ''type'' (JNumber (sint (SymbolType_to_int (symbol_type mapping)))))
          ''linkage'' (JNumber (sint (Linkage_to_int (linkage mapping)))))
          ''address'' (JNumber (uint (address mapping))))
          ''size'' (JNumber (uint (symbol_size mapping))))
          ''source_file'' (JString (source_file mapping)))
          ''line'' (JNumber (sint (line_number mapping))))"

text \<open>\<^verbatim>\<open>exportMapping\<close>: the document handed to \<^verbatim>\<open>Json::StyledWriter\<close>.\<close>

definition exportMapping :: "CSymbolObfuscator \<Rightarrow> json" where
  "exportMapping B =
     JObject
       (map_set (map_set (map_set []
          ''symbols'' (JArray (map symbol_to_json (obf_mappings B))))
          ''version'' (JString ''1.0''))
          ''hash_algorithm'' (JNumber (sint (HashAlgorithm_to_int (getAlgorithm (obf_hasher B))))))"

text \<open>
  \<^verbatim>\<open>importMapping\<close> on what \<^verbatim>\<open>Json::Reader::parse\<close> delivers: \<open>None\<close> when it reports
  failure, else the document. The fields of one symbol are read in the order of the source.
\<close>

definition symbol_of_json :: "json \<Rightarrow> error + SymbolMapping" where
  "symbol_of_json symbol =
     (case asString (json_member symbol ''original'') of Inl e \<Rightarrow> Inl e | Inr original \<Rightarrow>
      case asString (json_member symbol ''obfuscated'') of Inl e \<Rightarrow> Inl e | Inr obfuscated \<Rightarrow>
      case asInt (json_member symbol ''type'') of Inl e \<Rightarrow> Inl e | Inr t \<Rightarrow>
      case asInt (json_member symbol ''linkage'') of Inl e \<Rightarrow> Inl e | Inr l \<Rightarrow>
      case asUInt64 (json_member symbol ''address'') of Inl e \<Rightarrow> Inl e | Inr a \<Rightarrow>
      case asUInt64 (json_member symbol ''size'') of Inl e \<Rightarrow> Inl e | Inr sz \<Rightarrow>
      case asString (json_member symbol ''source_file'') of Inl e \<Rightarrow> Inl e | Inr file \<Rightarrow>
      case asInt (json_member symbol ''line'') of Inl e \<Rightarrow> Inl e | Inr line \<Rightarrow>
        Inr \<lparr>original_name = original, obfuscated_name = obfuscated,
             symbol_type = SymbolType_of_int t, linkage = Linkage_of_int l, address = a,
             symbol_size = sz, source_file = file, line_number = line\<rparr>)"

fun symbols_of_json :: "json list \<Rightarrow> error + SymbolMapping list" where
  "symbols_of_json [] = Inr []"
| "symbols_of_json (symbol # symbols) =
     (case symbol_of_json symbol of
        Inl e \<Rightarrow> Inl e
      | Inr mapping \<Rightarrow>
          (case symbols_of_json symbols of Inl e \<Rightarrow> Inl e | Inr mappings \<Rightarrow> Inr (mapping # mappings)))"

definition importMapping :: "CSymbolObfuscator \<Rightarrow> string \<Rightarrow> json option \<Rightarrow> error + CSymbolObfuscator" where
  "importMapping B file_path parsed =
     (case parsed of
        None \<Rightarrow> Inl (runtime_error (''Failed to parse mapping file: '' @ file_path))
      | Some root \<Rightarrow>
          (case symbols_of_json (json_elements (json_member root ''symbols'')) of
             Inl e \<Rightarrow> Inl e
           | Inr mappings \<Rightarrow> Inr (B\<lparr>obf_mappings := mappings\<rparr>)))"

text \<open>\<^verbatim>\<open>SymbolObfuscationPass::saveMapping\<close>: the document it formats into the file.\<close>

definition saveMapping :: "SymbolObfuscationPass \<Rightarrow> json" where
  "saveMapping P =
     JObject
       (map_set (map_set (map_set []
          ''symbols''
            (JArray (map (\<lambda>(original, obfuscated).
                            JObject (map_set (map_set [] ''original'' (JString original))
                                       ''obfuscated'' (JString obfuscated)))
                       (pass_mapping P))))
          ''version'' (JString ''1.0''))
          ''salt'' (JString (pass_salt P)))"

subsubsection \<open>\<^verbatim>\<open>obfuscateSymbols\<close> and the command line\<close>

text \<open>
  \<^verbatim>\<open>obfuscateSymbols\<close> on the text of the input file: the text written to the output file,
  the document exported when \<^verbatim>\<open>generate_map\<close> is set, and the obfuscator.
\<close>

definition obfuscateSymbols ::
  "host \<Rightarrow> CSymbolObfuscator \<Rightarrow> string \<Rightarrow> string list \<Rightarrow> string list
     \<Rightarrow> (error + (string \<times> json option \<times> CSymbolObfuscator)) option" where
  "obfuscateSymbols h B source_code func_matches var_matches =
     (case generateMapping h B (parseDeclarations h B func_matches var_matches) of
        Inl e \<Rightarrow> Some (Inl e)
      | Inr (mapping, B') \<Rightarrow>
          (case applyObfuscation h source_code mapping of
             None \<Rightarrow> None
           | Some obfuscated_code \<Rightarrow>
               Some (Inr (obfuscated_code,
                          (if generate_map (obf_config B') then Some (exportMapping B') else None),
                          B'))))"

text \<open>\<^verbatim>\<open>struct CliOptions\<close> of \<^verbatim>\<open>tools/symbol-obfuscate.cpp\<close> with its initialisers.\<close>

record CliOptions =
  cli_input_file :: string
  cli_output_file :: string
  cli_map_file :: string
  cli_hash_algo :: HashAlgorithm
  cli_prefix_style :: PrefixStyle
  cli_hash_length :: nat
  cli_salt :: string
  cli_preserve_main :: bool
  cli_preserve_stdlib :: bool
  cli_generate_map :: bool
  cli_verbose :: bool
  cli_is_cpp :: bool

definition default_CliOptions :: CliOptions where
  "default_CliOptions =
     \<lparr>cli_input_file = [], cli_output_file = [], cli_map_file = ''symbol_map.json'',
      cli_hash_algo = SHA256, cli_prefix_style = TYPED, cli_hash_length = 12, cli_salt = [],
      cli_preserve_main = True, cli_preserve_stdlib = True, cli_generate_map = True,
      cli_verbose = False, cli_is_cpp = False\<rparr>"

text \<open>The configuration \<^verbatim>\<open>main\<close> builds from the options before it runs the obfuscator.\<close>

definition cli_config :: "CliOptions \<Rightarrow> ObfuscationConfig" where
  "cli_config opts =
     default_ObfuscationConfig
       \<lparr>hash_config :=
          \<lparr>algorithm = cli_hash_algo opts, prefix_style = cli_prefix_style opts,
           hash_length = cli_hash_length opts, global_salt = cli_salt opts,
           deterministic = True\<rparr>,
        generate_map := cli_generate_map opts,
        map_file_path := cli_map_file opts,
        preserve_symbols :=
          (if \<not> cli_preserve_main opts
           then preserve_symbols default_ObfuscationConfig - {''main''}
           else preserve_symbols default_ObfuscationConfig)\<rparr>"

definition cli_run ::
  "host \<Rightarrow> CliOptions \<Rightarrow> string \<Rightarrow> string list \<Rightarrow> string list
     \<Rightarrow> (error + (string \<times> json option \<times> CSymbolObfuscator)) option" where
  "cli_run h opts source_code func_matches var_matches =
     obfuscateSymbols h (CSymbolObfuscator_new (cli_config opts)) source_code func_matches var_matches"

subsection \<open>Names used to state the properties of the codec and the drivers\<close>

text \<open>The codec applied to a list of names, one after the other, on one instance.\<close>

fun obfuscate_all :: "host \<Rightarrow> CryptoHasher \<Rightarrow> CppMangler \<Rightarrow> string list \<Rightarrow> string list option" where
  "obfuscate_all h H M [] = Some []"
| "obfuscate_all h H M (name # names) =
     (case obfuscateCppSymbol h H M name of
        None \<Rightarrow> None
      | Some (obfuscated, M') \<Rightarrow> map_option ((#) obfuscated) (obfuscate_all h H M' names))"

text \<open>
  A matcher for the anchored patterns of the scenarios: a literal, \<^verbatim>\<open>[0-9]+\<close>, and
  \<^verbatim>\<open>[0-9a-f]{n}\<close>. \<^verbatim>\<open>[0-9]+\<close> takes every digit it finds, which is what a regular
  expression engine settles on when the next atom is a literal that starts with a letter.
\<close>

datatype atom = Lit string | Digits | Hex nat

fun match_atoms :: "atom list \<Rightarrow> string \<Rightarrow> bool" where
  "match_atoms [] s \<longleftrightarrow> s = []"
| "match_atoms (Lit l # as) s \<longleftrightarrow> take (length l) s = l \<and> match_atoms as (drop (length l) s)"
| "match_atoms (Digits # as) s \<longleftrightarrow>
     takeWhile isdigit s \<noteq> [] \<and> match_atoms as (dropWhile isdigit s)"
| "match_atoms (Hex n # as) s \<longleftrightarrow>
     length (take n s) = n \<and> list_all hex_char (take n s) \<and> match_atoms as (drop n s)"

text \<open>\<^verbatim>\<open>^_ZN[0-9]+C[0-9a-f]{10}[0-9]+M[0-9a-f]{10}Ev$\<close>, the pattern of scenario S4.\<close>

definition S4_pattern :: "atom list" where
  "S4_pattern = [Lit ''_ZN'', Digits, Lit ''C'', Hex 10, Digits, Lit ''M'', Hex 10, Lit ''Ev'']"

text \<open>What \<^verbatim>\<open>parse\<close> returns for \<^verbatim>\<open>_ZN1a1b1cEv\<close> and for \<^verbatim>\<open>_ZN1a1b1cEi\<close>.\<close>

definition abc_components :: "CppSymbolComponents" where
  "abc_components =
     CppSymbolComponents_new\<lparr>is_mangled := True, abi_prefix := ''_Z'', has_namespace := True,
       namespace_name := ''a'', has_class := True, class_name := ''b'', method_name := ''c''\<rparr>"

text \<open>The obfuscated name the codec builds from these components.\<close>

definition abc_obfuscated :: "host \<Rightarrow> HashConfig \<Rightarrow> string" where
  "abc_obfuscated h cfg =
     ''_ZN'' @ encodeLengthPrefix (''N'' @ take 8 (generateHash h cfg ''a'' ''ns''))
       @ encodeLengthPrefix (''C'' @ take 10 (generateHash h cfg ''b'' ''class''))
       @ encodeLengthPrefix (''M'' @ take 10 (generateHash h cfg ''c'' ''method''))
       @ ''Ev''"

text \<open>A module with the two overloads \<^verbatim>\<open>a::b::c()\<close> and \<^verbatim>\<open>a::b::c(int)\<close> defined.\<close>

definition overload_module :: Module where
  "overload_module =
     \<lparr>ir_name = ''m'', ir_source_file_name = ''m.cpp'',
      ir_functions = [(''_ZN1a1b1cEv'', False), (''_ZN1a1b1cEi'', False)],
      ir_globals = [], ir_aliases = []\<rparr>"

text \<open>The configuration of the hasher during \<^verbatim>\<open>run\<close> for a pass constructed with \<open>salt\<close>.\<close>

definition run_config :: "host \<Rightarrow> string \<Rightarrow> Module \<Rightarrow> HashConfig" where
  "run_config h salt M =
     \<lparr>algorithm = SHA256, prefix_style = TYPED, hash_length = 12,
      global_salt = (if salt = [] then generateModuleSalt h M else salt), deterministic = True\<rparr>"

text \<open>
  \<^verbatim>\<open>^_ZN9N[0-9a-f]{8}11M[0-9a-f]{10}Ev$\<close>: a namespace token and a method token, no
  class token.
\<close>

definition S4_code_pattern :: "atom list" where
  "S4_code_pattern = [Lit ''_ZN9N'', Hex 8, Lit ''11M'', Hex 10, Lit ''Ev'']"

text \<open>
  The result of the codec for the names of scenario S4: the token of the namespace slot,
  which holds \<^verbatim>\<open>MyClas\<close>, and the token of the method slot, which holds what
  \<^verbatim>\<open>demangle\<close> returns for the whole name.
\<close>

definition S4_namespace_token :: "host \<Rightarrow> CryptoHasher \<Rightarrow> string" where
  "S4_namespace_token h H = ''N'' @ take 8 (generateHash h (hasher_config H) ''MyClas'' ''ns'')"

definition S4_method_token :: "host \<Rightarrow> CryptoHasher \<Rightarrow> string \<Rightarrow> string" where
  "S4_method_token h H mangled_name =
     ''M'' @ take 10 (generateHash h (hasher_config H) (demangle h mangled_name) ''method'')"

definition S4_result :: "host \<Rightarrow> CryptoHasher \<Rightarrow> string \<Rightarrow> string" where
  "S4_result h H mangled_name =
     ''_ZN9'' @ S4_namespace_token h H @ ''11'' @ S4_method_token h H mangled_name @ ''Ev''"

text \<open>The options of a run with \<^verbatim>\<open>--no-preserve-main\<close> and nothing else.\<close>

definition no_preserve_main :: CliOptions where
  "no_preserve_main = default_CliOptions\<lparr>cli_preserve_main := False\<rparr>"

subsubsection \<open>Whole-identifier substitution, as the specification words it\<close>

text \<open>
  A match of \<open>original\<close> at the head of \<open>text\<close> qualifies iff the character before it
  (\<open>prev\<close>, if any) is not an identifier character and the character after it (if any)
  is not either.
\<close>

definition boundary_before :: "char option \<Rightarrow> bool" where
  "boundary_before prev \<longleftrightarrow> (case prev of None \<Rightarrow> True | Some c \<Rightarrow> \<not> isIdentifierChar c)"

definition boundary_after :: "string \<Rightarrow> bool" where
  "boundary_after rest \<longleftrightarrow> (case rest of [] \<Rightarrow> True | c # _ \<Rightarrow> \<not> isIdentifierChar c)"

definition qualifies :: "char option \<Rightarrow> string \<Rightarrow> string \<Rightarrow> bool" where
  "qualifies prev original text \<longleftrightarrow>
     original \<noteq> [] \<and> take (length original) text = original
     \<and> boundary_before prev \<and> boundary_after (drop (length original) text)"

text \<open>
  \<open>rewrite_words prev original obfuscated text\<close> reads the input text from left to right,
  \<open>prev\<close> being the input character before \<open>text\<close>: a qualifying match is replaced by
  \<open>obfuscated\<close> and reading goes on behind the match; any other character is copied.
  Nothing that was written is read again.
\<close>

function rewrite_words :: "char option \<Rightarrow> string \<Rightarrow> string \<Rightarrow> string \<Rightarrow> string" where
  "rewrite_words prev original obfuscated [] = []"
| "rewrite_words prev original obfuscated (c # cs) =
     (if qualifies prev original (c # cs)
      then obfuscated @ rewrite_words (Some (last original)) original obfuscated
                          (drop (length original) (c # cs))
      else c # rewrite_words (Some c) original obfuscated cs)"
  by pat_completeness auto
termination
  by (relation "measure (\<lambda>(prev, original, obfuscated, text). length text)")
     (auto simp add: qualifies_def)

declare rewrite_words.simps(2) [simp del]

text \<open>
  The whole-identifier rewritings for a list of entries, one after the other: each works on
  the text the ones before it produced.
\<close>

fun rewrite_each :: "string \<Rightarrow> (string \<times> string) list \<Rightarrow> string" where
  "rewrite_each s [] = s"
| "rewrite_each s ((original, obfuscated) # entries) =
     rewrite_each (rewrite_words None original obfuscated s) entries"

section \<open>Properties of the hasher\<close>

subsection \<open>The unique-hash loop\<close>

lemma unique_loop_free:
  "\<not> taken H used full \<Longrightarrow> unique_loop h H name used prefix full counter = Inr full"
  by (subst unique_loop.simps) (simp add: taken_def)

lemma unique_loop_retry:
  "taken H used full \<Longrightarrow> counter < 10000 \<Longrightarrow>
   unique_loop h H name used prefix full counter =
   unique_loop h H name used prefix (retry_name h H name prefix counter) (Suc counter)"
  by (subst unique_loop.simps) (auto simp add: taken_def retry_name_def)

lemma unique_loop_exhausted:
  "taken H used full \<Longrightarrow> 10000 \<le> counter \<Longrightarrow>
   unique_loop h H name used prefix full counter = Inl (collision_error name)"
  by (subst unique_loop.simps) (auto simp add: taken_def collision_error_def)

lemma unique_loop_first_free:
  assumes "taken H used full" "counter \<le> k" "k < 10000"
    and "\<forall>j. counter \<le> j \<and> j < k \<longrightarrow> taken H used (retry_name h H name prefix j)"
    and "\<not> taken H used (retry_name h H name prefix k)"
  shows "unique_loop h H name used prefix full counter = Inr (retry_name h H name prefix k)"
  using assms
proof (induction "k - counter" arbitrary: counter full)
  case 0
  then have "counter = k" by simp
  with 0 show ?case
    by (simp add: unique_loop_retry unique_loop_free)
next
  case (Suc d)
  then have lt: "counter < k" by simp
  with Suc.prems have step: "unique_loop h H name used prefix full counter =
      unique_loop h H name used prefix (retry_name h H name prefix counter) (Suc counter)"
    by (simp add: unique_loop_retry)
  have "unique_loop h H name used prefix (retry_name h H name prefix counter) (Suc counter)
        = Inr (retry_name h H name prefix k)"
  proof (rule Suc.hyps(1))
    show "d = k - Suc counter" using Suc.hyps(2) by simp
    show "taken H used (retry_name h H name prefix counter)" using Suc.prems(4) lt by simp
    show "Suc counter \<le> k" using lt by simp
    show "k < 10000" by fact
    show "\<forall>j. Suc counter \<le> j \<and> j < k \<longrightarrow> taken H used (retry_name h H name prefix j)"
      using Suc.prems(4) by simp
    show "\<not> taken H used (retry_name h H name prefix k)" by fact
  qed
  with step show ?case by simp
qed

lemma unique_loop_all_taken:
  assumes "taken H used full" "counter \<le> 10000"
    and "\<forall>j. counter \<le> j \<and> j < 10000 \<longrightarrow> taken H used (retry_name h H name prefix j)"
  shows "unique_loop h H name used prefix full counter = Inl (collision_error name)"
  using assms
proof (induction "10000 - counter" arbitrary: counter full)
  case 0
  then show ?case by (simp add: unique_loop_exhausted)
next
  case (Suc d)
  then have lt: "counter < 10000" by simp
  with Suc.prems have step: "unique_loop h H name used prefix full counter =
      unique_loop h H name used prefix (retry_name h H name prefix counter) (Suc counter)"
    by (simp add: unique_loop_retry)
  have "unique_loop h H name used prefix (retry_name h H name prefix counter) (Suc counter)
        = Inl (collision_error name)"
  proof (rule Suc.hyps(1))
    show "d = 10000 - Suc counter" using Suc.hyps(2) by simp
    show "taken H used (retry_name h H name prefix counter)" using Suc.prems(3) lt by simp
    show "Suc counter \<le> 10000" using lt by simp
    show "\<forall>j. Suc counter \<le> j \<and> j < 10000 \<longrightarrow> taken H used (retry_name h H name prefix j)"
      using Suc.prems(3) by simp
  qed
  with step show ?case by simp
qed

text \<open>
  Claim C5, as stated, fails on two points. The loop looks the identifier up in the
  \<open>used_set\<close> argument and in the set \<^verbatim>\<open>used_hashes_\<close> of the instance: after one call
  for \<^verbatim>\<open>foo\<close> a second call with an empty \<open>used_set\<close> finds the prefixed hash absent
  from the used set and still returns the retry of counter 0. And with the default prefix
  \<^verbatim>\<open>""\<close> the identifier is not the prefix followed by the hash: under the style
  \<^verbatim>\<open>UNDERSCORE\<close> \<^verbatim>\<open>applyPrefix\<close> puts \<^verbatim>\<open>_\<close> in front.
\<close>

theorem generateUniqueHash_counterexample:
  "''f_'' @ generateHash test_host (hasher_config H0a) ''foo'' [] = ''f_030405060708''
   \<and> ''f_030405060708'' \<notin> ({} :: string set)
   \<and> generateUniqueHash test_host H0a ''foo'' {} ''f_''
       = Inr (''f_05060708090a'', {''f_05060708090a''}, H0b)
   \<and> [] @ generateHash test_host (hasher_config Hu) ''foo'' [] = ''030405060708''
   \<and> generateUniqueHash test_host Hu ''foo'' {} []
       = Inr (''_030405060708'', {''_030405060708''}, Hu1)"
proof (intro conjI)
  show "''f_'' @ generateHash test_host (hasher_config H0a) ''foo'' [] = ''f_030405060708''"
    by code_simp
  show "''f_030405060708'' \<notin> ({} :: string set)"
    by simp
  show "generateUniqueHash test_host H0a ''foo'' {} ''f_''
       = Inr (''f_05060708090a'', {''f_05060708090a''}, H0b)"
    by code_simp
  show "[] @ generateHash test_host (hasher_config Hu) ''foo'' [] = ''030405060708''"
    by code_simp
  show "generateUniqueHash test_host Hu ''foo'' {} []
       = Inr (''_030405060708'', {''_030405060708''}, Hu1)"
    by code_simp
qed

text \<open>
  Claim C5, as amended. \<^verbatim>\<open>generateUniqueHash(name, used_set, prefix)\<close> returns the
  prefixed hash of \<open>name\<close> when that identifier is neither in \<open>used_set\<close> nor in the set
  \<^verbatim>\<open>used_hashes_\<close> of the instance, and inserts it into both. On a collision with either
  set it tries the prefixed hashes of \<open>name_0\<close>, \<open>name_1\<close>, \<open>\<dots>\<close> in this order and
  inserts and returns the first one that is in neither set. When the first identifier and
  those of the counters 0 to 9999 are all taken, it fails with the collision error. With
  a non-empty \<open>prefix\<close> argument the prefixed hash is \<open>prefix\<close> followed by the hash;
  with an empty one it is what \<^verbatim>\<open>applyPrefix\<close> makes of the hash under the configured
  style: the hash itself (\<^verbatim>\<open>TYPED\<close>), \<^verbatim>\<open>_\<close> and the hash (\<^verbatim>\<open>UNDERSCORE\<close>), or the hash
  with \<^verbatim>\<open>s_\<close> in front when it starts with a digit (\<^verbatim>\<open>NONE\<close>).
\<close>

theorem generateUniqueHash_contract:
  "(\<not> taken H used (primary_name h H name prefix) \<longrightarrow>
      generateUniqueHash h H name used prefix = unique_ok H used (primary_name h H name prefix))
   \<and> (taken H used (primary_name h H name prefix) \<and> k < 10000
        \<and> (\<forall>j<k. taken H used (retry_name h H name prefix j))
        \<and> \<not> taken H used (retry_name h H name prefix k) \<longrightarrow>
      generateUniqueHash h H name used prefix = unique_ok H used (retry_name h H name prefix k))
   \<and> (taken H used (primary_name h H name prefix)
        \<and> (\<forall>j<10000. taken H used (retry_name h H name prefix j)) \<longrightarrow>
      generateUniqueHash h H name used prefix = Inl (collision_error name))
   \<and> (prefix \<noteq> [] \<longrightarrow>
        primary_name h H name prefix = prefix @ generateHash h (hasher_config H) name []
        \<and> retry_name h H name prefix k =
            prefix @ generateHash h (hasher_config H) (name @ ''_'' @ to_string k) [])
   \<and> (prefix = [] \<longrightarrow>
        primary_name h H name prefix =
          (case prefix_style (hasher_config H) of
             TYPED \<Rightarrow> generateHash h (hasher_config H) name []
           | UNDERSCORE \<Rightarrow> ''_'' @ generateHash h (hasher_config H) name []
           | NONE \<Rightarrow>
               if generateHash h (hasher_config H) name [] \<noteq> []
                  \<and> isdigit (hd (generateHash h (hasher_config H) name []))
               then ''s_'' @ generateHash h (hasher_config H) name []
               else generateHash h (hasher_config H) name [])
        \<and> retry_name h H name prefix k =
          (case prefix_style (hasher_config H) of
             TYPED \<Rightarrow> generateHash h (hasher_config H) (name @ ''_'' @ to_string k) []
           | UNDERSCORE \<Rightarrow> ''_'' @ generateHash h (hasher_config H) (name @ ''_'' @ to_string k) []
           | NONE \<Rightarrow>
               if generateHash h (hasher_config H) (name @ ''_'' @ to_string k) [] \<noteq> []
                  \<and> isdigit (hd (generateHash h (hasher_config H) (name @ ''_'' @ to_string k) []))
               then ''s_'' @ generateHash h (hasher_config H) (name @ ''_'' @ to_string k) []
               else generateHash h (hasher_config H) (name @ ''_'' @ to_string k) []))"
proof (intro conjI impI)
  assume "\<not> taken H used (primary_name h H name prefix)"
  then show "generateUniqueHash h H name used prefix = unique_ok H used (primary_name h H name prefix)"
    by (simp add: generateUniqueHash_def unique_ok_def unique_loop_free primary_name_def [symmetric])
next
  assume a: "taken H used (primary_name h H name prefix) \<and> k < 10000
        \<and> (\<forall>j<k. taken H used (retry_name h H name prefix j))
        \<and> \<not> taken H used (retry_name h H name prefix k)"
  then have "unique_loop h H name used prefix (primary_name h H name prefix) 0
             = Inr (retry_name h H name prefix k)"
    by (intro unique_loop_first_free) auto
  then show "generateUniqueHash h H name used prefix = unique_ok H used (retry_name h H name prefix k)"
    by (simp add: generateUniqueHash_def unique_ok_def primary_name_def [symmetric])
next
  assume a: "taken H used (primary_name h H name prefix)
        \<and> (\<forall>j<10000. taken H used (retry_name h H name prefix j))"
  then have "unique_loop h H name used prefix (primary_name h H name prefix) 0
             = Inl (collision_error name)"
    by (intro unique_loop_all_taken) auto
  then show "generateUniqueHash h H name used prefix = Inl (collision_error name)"
    by (simp add: generateUniqueHash_def primary_name_def [symmetric])
next
  assume "prefix \<noteq> []"
  then show "primary_name h H name prefix = prefix @ generateHash h (hasher_config H) name []"
    by (simp add: primary_name_def applyPrefix_def)
next
  assume "prefix \<noteq> []"
  then show "retry_name h H name prefix k =
            prefix @ generateHash h (hasher_config H) (name @ ''_'' @ to_string k) []"
    by (simp add: retry_name_def applyPrefix_def)
next
  assume "prefix = []"
  then show "primary_name h H name prefix =
          (case prefix_style (hasher_config H) of
             TYPED \<Rightarrow> generateHash h (hasher_config H) name []
           | UNDERSCORE \<Rightarrow> ''_'' @ generateHash h (hasher_config H) name []
           | NONE \<Rightarrow>
               if generateHash h (hasher_config H) name [] \<noteq> []
                  \<and> isdigit (hd (generateHash h (hasher_config H) name []))
               then ''s_'' @ generateHash h (hasher_config H) name []
               else generateHash h (hasher_config H) name [])"
    by (cases "prefix_style (hasher_config H)") (simp_all add: primary_name_def applyPrefix_def)
next
  assume "prefix = []"
  then show "retry_name h H name prefix k =
          (case prefix_style (hasher_config H) of
             TYPED \<Rightarrow> generateHash h (hasher_config H) (name @ ''_'' @ to_string k) []
           | UNDERSCORE \<Rightarrow> ''_'' @ generateHash h (hasher_config H) (name @ ''_'' @ to_string k) []
           | NONE \<Rightarrow>
               if generateHash h (hasher_config H) (name @ ''_'' @ to_string k) [] \<noteq> []
                  \<and> isdigit (hd (generateHash h (hasher_config H) (name @ ''_'' @ to_string k) []))
               then ''s_'' @ generateHash h (hasher_config H) (name @ ''_'' @ to_string k) []
               else generateHash h (hasher_config H) (name @ ''_'' @ to_string k) [])"
    by (cases "prefix_style (hasher_config H)") (simp_all add: retry_name_def applyPrefix_def)
qed

lemma retry_zero: "retry_name test_host Hz ''foo'' ''f_'' j = ''f_''"
  by (simp add: retry_name_def Hz_def CryptoHasher_new_def applyPrefix_def generateHash_def
       truncateHash_def Let_def)

text \<open>
  The cases on concrete inputs: a free first identifier, a collision with the set of the
  instance resolved at counter 0, a hash length of 0, where every retry collides, and both
  shapes of the identifier, with the prefix \<^verbatim>\<open>f_\<close> and with an empty prefix under the
  style \<^verbatim>\<open>UNDERSCORE\<close>.
\<close>

theorem generateUniqueHash_contract_witness:
  "generateUniqueHash test_host H0 ''foo'' {} ''f_''
     = Inr (''f_030405060708'', {''f_030405060708''},
            H0\<lparr>hasher_used_hashes := {''f_030405060708''}\<rparr>)
   \<and> generateUniqueHash test_host H0a ''foo'' {} ''f_''
     = Inr (''f_05060708090a'', {''f_05060708090a''},
            H0a\<lparr>hasher_used_hashes := {''f_05060708090a'', ''f_030405060708''}\<rparr>)
   \<and> generateUniqueHash test_host Hz ''foo'' {''f_''} ''f_''
     = Inl (runtime_error ''Too many hash collisions for: foo'')
   \<and> ''f_'' \<noteq> []
   \<and> primary_name test_host H0 ''foo'' ''f_''
       = ''f_'' @ generateHash test_host (hasher_config H0) ''foo'' []
   \<and> retry_name test_host H0 ''foo'' ''f_'' 0
       = ''f_'' @ generateHash test_host (hasher_config H0) (''foo'' @ ''_'' @ to_string 0) []
   \<and> primary_name test_host Hu ''foo'' []
       = ''_'' @ generateHash test_host (hasher_config Hu) ''foo'' []
   \<and> retry_name test_host Hu ''foo'' [] 0
       = ''_'' @ generateHash test_host (hasher_config Hu) (''foo'' @ ''_'' @ to_string 0) []"
proof (intro conjI)
  have p: "primary_name test_host H0 ''foo'' ''f_'' = ''f_030405060708''"
    by code_simp
  have u: "hasher_used_hashes H0 = {}"
    by (simp add: H0_def CryptoHasher_new_def)
  have "\<not> taken H0 {} (primary_name test_host H0 ''foo'' ''f_'')"
    by (simp add: taken_def u)
  with generateUniqueHash_contract [of H0 "{}" test_host "''foo''" "''f_''" 0]
  have "generateUniqueHash test_host H0 ''foo'' {} ''f_''
        = unique_ok H0 {} (primary_name test_host H0 ''foo'' ''f_'')"
    by blast
  then show "generateUniqueHash test_host H0 ''foo'' {} ''f_''
     = Inr (''f_030405060708'', {''f_030405060708''},
            H0\<lparr>hasher_used_hashes := {''f_030405060708''}\<rparr>)"
    by (simp add: p u unique_ok_def)
next
  have p: "primary_name test_host H0a ''foo'' ''f_'' = ''f_030405060708''"
    by code_simp
  have r: "retry_name test_host H0a ''foo'' ''f_'' 0 = ''f_05060708090a''"
    by code_simp
  have u: "hasher_used_hashes H0a = {''f_030405060708''}"
    by (simp add: H0a_def)
  have "taken H0a {} (primary_name test_host H0a ''foo'' ''f_'') \<and> (0::nat) < 10000
        \<and> (\<forall>j<0. taken H0a {} (retry_name test_host H0a ''foo'' ''f_'' j))
        \<and> \<not> taken H0a {} (retry_name test_host H0a ''foo'' ''f_'' 0)"
    by (simp add: taken_def u p r)
  with generateUniqueHash_contract [of H0a "{}" test_host "''foo''" "''f_''" 0]
  have "generateUniqueHash test_host H0a ''foo'' {} ''f_''
        = unique_ok H0a {} (retry_name test_host H0a ''foo'' ''f_'' 0)"
    by blast
  then show "generateUniqueHash test_host H0a ''foo'' {} ''f_''
     = Inr (''f_05060708090a'', {''f_05060708090a''},
            H0a\<lparr>hasher_used_hashes := {''f_05060708090a'', ''f_030405060708''}\<rparr>)"
    by (simp add: r u unique_ok_def)
next
  have p: "primary_name test_host Hz ''foo'' ''f_'' = ''f_''"
    by (simp add: primary_name_def Hz_def CryptoHasher_new_def applyPrefix_def generateHash_def
       truncateHash_def Let_def)
  have "taken Hz {''f_''} (primary_name test_host Hz ''foo'' ''f_'')
        \<and> (\<forall>j<10000. taken Hz {''f_''} (retry_name test_host Hz ''foo'' ''f_'' j))"
    by (simp add: taken_def p retry_zero)
  with generateUniqueHash_contract [of Hz "{''f_''}" test_host "''foo''" "''f_''" 0]
  have "generateUniqueHash test_host Hz ''foo'' {''f_''} ''f_'' = Inl (collision_error ''foo'')"
    by blast
  then show "generateUniqueHash test_host Hz ''foo'' {''f_''} ''f_''
     = Inl (runtime_error ''Too many hash collisions for: foo'')"
    by (simp add: collision_error_def)
next
  have ne: "''f_'' \<noteq> []" by simp
  then show "''f_'' \<noteq> []" .
  from generateUniqueHash_contract [of H0 "{}" test_host "''foo''" "''f_''" 0] ne
  show "primary_name test_host H0 ''foo'' ''f_''
       = ''f_'' @ generateHash test_host (hasher_config H0) ''foo'' []"
    and "retry_name test_host H0 ''foo'' ''f_'' 0
       = ''f_'' @ generateHash test_host (hasher_config H0) (''foo'' @ ''_'' @ to_string 0) []"
    by blast+
next
  have st: "prefix_style (hasher_config Hu) = UNDERSCORE"
    by (simp add: Hu_def CryptoHasher_new_def)
  from generateUniqueHash_contract [of Hu "{}" test_host "''foo''" "[]" 0]
  show "primary_name test_host Hu ''foo'' []
       = ''_'' @ generateHash test_host (hasher_config Hu) ''foo'' []"
    and "retry_name test_host Hu ''foo'' [] 0
       = ''_'' @ generateHash test_host (hasher_config Hu) (''foo'' @ ''_'' @ to_string 0) []"
    by (simp_all add: st)
qed

subsection \<open>Shape of the emitted identifiers\<close>

lemma hex_digit_hex: "d < 16 \<Longrightarrow> hex_char (hex_digit d)"
proof -
  assume "d < 16"
  then have "d = 0 \<or> d = 1 \<or> d = 2 \<or> d = 3 \<or> d = 4 \<or> d = 5 \<or> d = 6 \<or> d = 7 \<or> d = 8
      \<or> d = 9 \<or> d = 10 \<or> d = 11 \<or> d = 12 \<or> d = 13 \<or> d = 14 \<or> d = 15"
    by arith
  then show ?thesis
    by (elim disjE) (simp_all add: hex_digit_def hex_char_def)
qed

lemma hex_byte_hex: "list_all hex_char (hex_byte b)"
proof -
  have "unat b < 256" using unsigned_less [of b, where ?'a = nat] by simp
  then have "unat b div 16 < 16" by simp
  then show ?thesis by (simp add: hex_byte_def hex_digit_hex)
qed

lemma length_hex_byte: "length (hex_byte b) = 2"
  by (simp add: hex_byte_def)

lemma hexEncode_hex: "list_all hex_char (hexEncode data len)"
  by (simp add: hexEncode_def list_all_iff) (use hex_byte_hex in \<open>auto simp add: list_all_iff\<close>)

lemma length_hexEncode: "length (hexEncode data len) = 2 * len"
  by (induction len) (simp_all add: hexEncode_def length_hex_byte)

lemma hex_u64_hex: "list_all hex_char (hex_u64 w)"
  by (simp add: hex_u64_def list_all_iff hex_digit_hex)

lemma length_hex_u64: "length (hex_u64 w) = 16"
  by (simp add: hex_u64_def)

lemma truncateHash_take: "truncateHash s n = take n s"
  by (simp add: truncateHash_def)

lemma generateHash_hex: "list_all hex_char (generateHash h cfg name salt)"
proof -
  have "list_all hex_char (take n s)" if "list_all hex_char s" for n s
    using that by (auto simp add: list_all_iff dest: in_set_takeD)
  then show ?thesis
    by (cases "algorithm cfg")
       (simp_all add: generateHash_def truncateHash_take sha256Hash_def blake2bHash_def sipHash_def
          hexEncode_hex hex_u64_hex Let_def)
qed

lemma length_generateHash:
  "length (generateHash h cfg name salt) = min (hash_length cfg) (digest_chars cfg)"
  by (cases "algorithm cfg")
     (simp_all add: generateHash_def truncateHash_take sha256Hash_def blake2bHash_def sipHash_def
        length_hexEncode length_hex_u64 digest_chars_def SHA256_DIGEST_LENGTH_def
        blake2b512_hash_len_def Let_def min_def)

lemma digest_chars_ge: "16 \<le> digest_chars cfg"
  by (cases "algorithm cfg") (simp_all add: digest_chars_def)






lemma unique_loop_result:
  "unique_loop h H name used prefix full counter = Inr r \<Longrightarrow>
   \<not> taken H used r \<and> (r = full \<or> (\<exists>k. r = retry_name h H name prefix k))"
proof (induction h H name used prefix full counter rule: unique_loop.induct)
  case (1 h H name used prefix full counter)
  show ?case
  proof (cases "taken H used full")
    case False
    with "1.prems" show ?thesis by (simp add: unique_loop_free)
  next
    case True
    show ?thesis
    proof (cases "counter < 10000")
      case False
      with True "1.prems" show ?thesis by (simp add: unique_loop_exhausted)
    next
      case lt: True
      from True lt "1.prems" have
        "unique_loop h H name used prefix (retry_name h H name prefix counter) (Suc counter) = Inr r"
        by (simp add: unique_loop_retry)
      then have "\<not> taken H used r \<and> (r = retry_name h H name prefix counter
                  \<or> (\<exists>k. r = retry_name h H name prefix k))"
        using "1.IH" True lt by (simp add: taken_def retry_name_def)
      then show ?thesis by auto
    qed
  qed
qed

lemma generateUniqueHash_result:
  assumes "generateUniqueHash h H name used prefix = Inr (r, used', H')"
  shows "\<not> taken H used r" and "used' = insert r used"
    and "H' = H\<lparr>hasher_used_hashes := insert r (hasher_used_hashes H)\<rparr>"
    and "r = primary_name h H name prefix \<or> (\<exists>k. r = retry_name h H name prefix k)"
  using assms unique_loop_result [of h H name used prefix "primary_name h H name prefix" 0 r]
  by (auto simp add: generateUniqueHash_def primary_name_def split: sum.splits)

lemma hash_typed_result:
  assumes "hash_typed tp h H name = Inr (r, H')"
  shows "r \<notin> hasher_used_hashes H"
    and "H' = H\<lparr>hasher_used_hashes := insert r (hasher_used_hashes H)\<rparr>"
    and "\<exists>n. r = applyPrefix (hasher_config H) (generateHash h (hasher_config H) n [])
                  (if prefix_style (hasher_config H) = TYPED then tp else [])"
proof -
  let ?p = "if prefix_style (hasher_config H) = TYPED then tp else []"
  from assms obtain u where g: "generateUniqueHash h H name {} ?p = Inr (r, u, H')"
    by (auto simp add: hash_typed_def split: sum.splits)
  from generateUniqueHash_result [OF g]
  show "r \<notin> hasher_used_hashes H"
    and "H' = H\<lparr>hasher_used_hashes := insert r (hasher_used_hashes H)\<rparr>"
    and "\<exists>n. r = applyPrefix (hasher_config H) (generateHash h (hasher_config H) n []) ?p"
    by (auto simp add: taken_def primary_name_def retry_name_def)
qed




subsection \<open>One instance never returns an identifier twice\<close>

lemma hasher_step_fresh:
  assumes "hasher_step h H c = (r, H')"
  shows "hasher_used_hashes H \<subseteq> hasher_used_hashes H'"
    and "r = Some (Inr x) \<Longrightarrow> x \<notin> hasher_used_hashes H \<and> x \<in> hasher_used_hashes H'"
proof -
  have typed: "hasher_used_hashes H \<subseteq> hasher_used_hashes H'
      \<and> (r = Some (Inr x) \<longrightarrow> x \<notin> hasher_used_hashes H \<and> x \<in> hasher_used_hashes H')"
    if "(case hash_typed tp h H name of Inl e \<Rightarrow> (Some (Inl e), H)
          | Inr (r, H') \<Rightarrow> (Some (Inr r), H')) = (r, H')" for tp name
  proof (cases "hash_typed tp h H name")
    case (Inl e)
    with that show ?thesis by auto
  next
    case (Inr p)
    obtain y K where p: "p = (y, K)" by (cases p)
    with Inr that have "r = Some (Inr y)" "H' = K" by auto
    with hash_typed_result(1,2) [of tp h H name y K] Inr p show ?thesis by auto
  qed
  have "hasher_used_hashes H \<subseteq> hasher_used_hashes H'
      \<and> (r = Some (Inr x) \<longrightarrow> x \<notin> hasher_used_hashes H \<and> x \<in> hasher_used_hashes H')"
  proof (cases c)
    case (GenerateUniqueHash name used prefix)
    show ?thesis
    proof (cases "generateUniqueHash h H name used prefix")
      case (Inl e)
      with assms GenerateUniqueHash show ?thesis by auto
    next
      case (Inr p)
      obtain y u K where p: "p = (y, u, K)" by (cases p)
      with Inr assms GenerateUniqueHash have "r = Some (Inr y)" "H' = K" by auto
      with generateUniqueHash_result(1,3) [of h H name used prefix y u K] Inr p
      show ?thesis by (auto simp add: taken_def)
    qed
  next
    case (SetSalt salt)
    with assms show ?thesis by (auto simp add: setSalt_def)
  next
    case (HashFunction name)
    with assms show ?thesis by (intro typed [of "''f_''" name]) (simp add: hashFunction_def)
  next
    case (HashVariable name)
    with assms show ?thesis by (intro typed [of "''v_''" name]) (simp add: hashVariable_def)
  next
    case (HashClass name)
    with assms show ?thesis by (intro typed [of "''C_''" name]) (simp add: hashClass_def)
  next
    case (HashNamespace name)
    with assms show ?thesis by (intro typed [of "''N_''" name]) (simp add: hashNamespace_def)
  qed
  then show "hasher_used_hashes H \<subseteq> hasher_used_hashes H'"
    and "r = Some (Inr x) \<Longrightarrow> x \<notin> hasher_used_hashes H \<and> x \<in> hasher_used_hashes H'"
    by simp_all
qed

lemma hasher_run_fresh:
  "hasher_run h H cs = (rs, H') \<Longrightarrow>
   hasher_used_hashes H \<subseteq> hasher_used_hashes H'
   \<and> set (returned rs) \<subseteq> hasher_used_hashes H' - hasher_used_hashes H
   \<and> distinct (returned rs)"
proof (induction cs arbitrary: H rs H')
  case Nil
  then show ?case by simp
next
  case (Cons c cs)
  obtain r K where step: "hasher_step h H c = (r, K)" by (cases "hasher_step h H c")
  obtain rs' K' where run: "hasher_run h K cs = (rs', K')" by (cases "hasher_run h K cs")
  from Cons.prems step run have rs: "rs = r # rs'" and K': "H' = K'" by simp_all
  from Cons.IH [OF run] have
    ih: "hasher_used_hashes K \<subseteq> hasher_used_hashes K'"
        "set (returned rs') \<subseteq> hasher_used_hashes K' - hasher_used_hashes K"
        "distinct (returned rs')"
    by simp_all
  note st = hasher_step_fresh [OF step]
  show ?case
  proof (cases "\<exists>x. r = Some (Inr x)")
    case True
    then obtain x where x: "r = Some (Inr x)" by blast
    from st(2) [OF x] have "x \<notin> hasher_used_hashes H" "x \<in> hasher_used_hashes K" by simp_all
    with ih st(1) show ?thesis
      unfolding rs K' x by auto
  next
    case False
    then have "returned (r # rs') = returned rs'"
      by (cases r rule: option.exhaust; cases "the r") auto
    with ih st(1) show ?thesis
      unfolding rs K' by auto
  qed
qed

text \<open>
  Claim C10. In any run of one \<^verbatim>\<open>CryptoHasher\<close> instance the identifiers returned by
  the successful calls of \<^verbatim>\<open>generateUniqueHash\<close>, \<^verbatim>\<open>hashFunction\<close>,
  \<^verbatim>\<open>hashVariable\<close>, \<^verbatim>\<open>hashClass\<close> and \<^verbatim>\<open>hashNamespace\<close> are pairwise distinct
  and were not in the instance's set before; that set only grows. So two calls with the
  same name return two different identifiers.
\<close>

theorem hasher_never_repeats:
  "distinct (returned (fst (hasher_run h H cs)))
   \<and> set (returned (fst (hasher_run h H cs))) \<inter> hasher_used_hashes H = {}
   \<and> hasher_used_hashes H \<subseteq> hasher_used_hashes (snd (hasher_run h H cs))
   \<and> (generateUniqueHash h H name used prefix = Inr (a, used1, H1)
        \<and> generateUniqueHash h H1 name used' prefix' = Inr (b, used2, H2) \<longrightarrow> a \<noteq> b)
   \<and> (hashFunction h H name = Inr (a, H1) \<and> hashFunction h H1 name = Inr (b, H2) \<longrightarrow> a \<noteq> b)"
proof (intro conjI impI)
  obtain rs H' where run: "hasher_run h H cs = (rs, H')" by (cases "hasher_run h H cs")
  from hasher_run_fresh [OF run]
  show "distinct (returned (fst (hasher_run h H cs)))"
    and "set (returned (fst (hasher_run h H cs))) \<inter> hasher_used_hashes H = {}"
    and "hasher_used_hashes H \<subseteq> hasher_used_hashes (snd (hasher_run h H cs))"
    unfolding run by auto
next
  assume "generateUniqueHash h H name used prefix = Inr (a, used1, H1)
        \<and> generateUniqueHash h H1 name used' prefix' = Inr (b, used2, H2)"
  then show "a \<noteq> b"
    using generateUniqueHash_result(3) [of h H name used prefix a used1 H1]
      generateUniqueHash_result(1) [of h H1 name used' prefix' b used2 H2]
    by (auto simp add: taken_def)
next
  assume "hashFunction h H name = Inr (a, H1) \<and> hashFunction h H1 name = Inr (b, H2)"
  then show "a \<noteq> b"
    using hash_typed_result(2) [of "''f_''" h H name a H1]
      hash_typed_result(1) [of "''f_''" h H1 name b H2]
    by (auto simp add: hashFunction_def)
qed

lemma hashFunction_foo_1: "hashFunction test_host H0 ''foo'' = Inr (''f_030405060708'', H0a)"
  by code_simp

lemma hashFunction_foo_2: "hashFunction test_host H0a ''foo'' = Inr (''f_05060708090a'', H0b)"
  by code_simp

lemma generateUniqueHash_al_1:
  "generateUniqueHash test_host H0 ''al'' {} ''a_'' = Inr (''a_020304050607'', {''a_020304050607''}, Ha1)"
  by code_simp

lemma generateUniqueHash_al_2:
  "generateUniqueHash test_host Ha1 ''al'' {} ''a_'' = Inr (''a_040506070809'', {''a_040506070809''}, Ha2)"
  by code_simp

text \<open>
  Two calls of \<^verbatim>\<open>hashFunction\<close> with the name \<^verbatim>\<open>foo\<close> on one instance, and two calls
  of \<^verbatim>\<open>generateUniqueHash\<close> with the name \<^verbatim>\<open>al\<close>.
\<close>

theorem hasher_never_repeats_witness:
  "hashFunction test_host H0 ''foo'' = Inr (''f_030405060708'', H0a)
   \<and> hashFunction test_host H0a ''foo'' = Inr (''f_05060708090a'', H0b)
   \<and> ''f_030405060708'' \<noteq> ''f_05060708090a''
   \<and> generateUniqueHash test_host H0 ''al'' {} ''a_''
       = Inr (''a_020304050607'', {''a_020304050607''}, Ha1)
   \<and> generateUniqueHash test_host Ha1 ''al'' {} ''a_''
       = Inr (''a_040506070809'', {''a_040506070809''}, Ha2)
   \<and> ''a_020304050607'' \<noteq> ''a_040506070809''"
proof -
  from hasher_never_repeats [of test_host H0 "[]" "''foo''" "{}" "''f_''" "''f_030405060708''"
      "{}" H0a "{}" "''f_''" "''f_05060708090a''" "{}" H0b]
    hashFunction_foo_1 hashFunction_foo_2
  have "''f_030405060708'' \<noteq> ''f_05060708090a''" by blast
  moreover
  from hasher_never_repeats [of test_host H0 "[]" "''al''" "{}" "''a_''" "''a_020304050607''"
      "{''a_020304050607''}" Ha1 "{}" "''a_''" "''a_040506070809''" "{''a_040506070809''}" Ha2]
    generateUniqueHash_al_1 generateUniqueHash_al_2
  have "''a_020304050607'' \<noteq> ''a_040506070809''" by blast
  ultimately show ?thesis
    using hashFunction_foo_1 hashFunction_foo_2 generateUniqueHash_al_1 generateUniqueHash_al_2
    by blast
qed



section \<open>Properties of the mangled-name codec\<close>

subsection \<open>Two overloads\<close>

lemmas parse_eval = parse_def isCppMangled_def parse_nested.simps read_length.simps
  isdigit_def digit_value_def size_t_add_def CppSymbolComponents_new_def

lemma parse_abc_v: "parse h ''_ZN1a1b1cEv'' = Some abc_components"
  by (simp add: parse_eval abc_components_def)

lemma parse_abc_i: "parse h ''_ZN1a1b1cEi'' = Some abc_components"
  by (simp add: parse_eval abc_components_def)

lemmas codec_eval = obfuscateCppSymbol_def reconstructMangled_def obfuscateNamespace_def
  obfuscateClassName_def obfuscateMethodName_def encodeParameters_def map_count_def map_at_def
  CppMangler_new_def Let_def

lemma reconstruct_abc:
  assumes "namespace_cache M = []" "class_cache M = []" "method_cache M = []"
  shows "reconstructMangled h H M abc_components =
     (abc_obfuscated h (hasher_config H),
      M\<lparr>namespace_cache := [(''a'', ''N'' @ take 8 (generateHash h (hasher_config H) ''a'' ''ns''))],
        class_cache := [(''b'', ''C'' @ take 10 (generateHash h (hasher_config H) ''b'' ''class''))],
        method_cache := [(''c'', ''M'' @ take 10 (generateHash h (hasher_config H) ''c'' ''method''))]\<rparr>)"
  using assms
  by (simp add: codec_eval abc_components_def abc_obfuscated_def CppSymbolComponents_new_def)

lemma reconstruct_abc_cached:
  assumes "namespace_cache M = [(''a'', ''N'' @ take 8 (generateHash h (hasher_config H) ''a'' ''ns''))]"
    and "class_cache M = [(''b'', ''C'' @ take 10 (generateHash h (hasher_config H) ''b'' ''class''))]"
    and "method_cache M = [(''c'', ''M'' @ take 10 (generateHash h (hasher_config H) ''c'' ''method''))]"
  shows "reconstructMangled h H M abc_components = (abc_obfuscated h (hasher_config H), M)"
  using assms
  by (simp add: codec_eval abc_components_def abc_obfuscated_def CppSymbolComponents_new_def)

lemma abc_flags:
  "is_mangled abc_components" "\<not> is_vtable abc_components" "\<not> is_typeinfo abc_components"
  "\<not> is_typeinfo_name abc_components"
  by (simp_all add: abc_components_def CppSymbolComponents_new_def)

text \<open>The state of the codec after one of the two names has been obfuscated.\<close>

lemma obfuscate_abc_first:
  assumes "mangler_mapping M = []" "namespace_cache M = []" "class_cache M = []"
    "method_cache M = []"
    and "name = ''_ZN1a1b1cEv'' \<or> name = ''_ZN1a1b1cEi''"
  shows "obfuscateCppSymbol h H M name =
    Some (abc_obfuscated h (hasher_config H),
      M\<lparr>namespace_cache := [(''a'', ''N'' @ take 8 (generateHash h (hasher_config H) ''a'' ''ns''))],
        class_cache := [(''b'', ''C'' @ take 10 (generateHash h (hasher_config H) ''b'' ''class''))],
        method_cache := [(''c'', ''M'' @ take 10 (generateHash h (hasher_config H) ''c'' ''method''))],
        mangler_mapping := [(name, abc_obfuscated h (hasher_config H))]\<rparr>)"
proof -
  have p: "parse h name = Some abc_components"
    using assms(5) parse_abc_v parse_abc_i by auto
  show ?thesis
    by (simp add: obfuscateCppSymbol_def p abc_flags reconstruct_abc assms(1-4) map_count_def)
qed

lemma obfuscate_abc_second:
  assumes "mangler_mapping M = [(''_ZN1a1b1cEv'', x)]"
    and "namespace_cache M = [(''a'', ''N'' @ take 8 (generateHash h (hasher_config H) ''a'' ''ns''))]"
    and "class_cache M = [(''b'', ''C'' @ take 10 (generateHash h (hasher_config H) ''b'' ''class''))]"
    and "method_cache M = [(''c'', ''M'' @ take 10 (generateHash h (hasher_config H) ''c'' ''method''))]"
  shows "obfuscateCppSymbol h H M ''_ZN1a1b1cEi'' =
    Some (abc_obfuscated h (hasher_config H),
      M\<lparr>mangler_mapping := [(''_ZN1a1b1cEi'', abc_obfuscated h (hasher_config H)),
                             (''_ZN1a1b1cEv'', x)]\<rparr>)"
  by (simp add: obfuscateCppSymbol_def parse_abc_i abc_flags reconstruct_abc_cached [OF assms(2-4)]
        assms(1) map_count_def)

lemma obfuscate_all_overloads:
  "obfuscate_all h H CppMangler_new [''_ZN1a1b1cEv'', ''_ZN1a1b1cEi'']
     = Some [abc_obfuscated h (hasher_config H), abc_obfuscated h (hasher_config H)]"
proof -
  have cm: "mangler_mapping CppMangler_new = []" "namespace_cache CppMangler_new = []"
    "class_cache CppMangler_new = []" "method_cache CppMangler_new = []"
    by (simp_all add: CppMangler_new_def)
  show ?thesis
    by (simp add: obfuscate_abc_first [OF cm] obfuscate_abc_second)
qed

lemma not_preserved_abc:
  assumes "pass_preserve_symbols P = initializePreserveSet"
  shows "\<not> pass_shouldPreserve P ''_ZN1a1b1cEv''" and "\<not> pass_shouldPreserve P ''_ZN1a1b1cEi''"
  using assms
  by (simp_all add: pass_shouldPreserve_def isSystemSymbol_def initializePreserveSet_def
        stdlib_funcs_def)

lemma obfuscateFunctions_overloads:
  assumes ps: "pass_preserve_symbols P = initializePreserveSet"
    and M0: "pass_cpp_mangler P = CppMangler_new"
    and mp: "pass_mapping P = []"
  shows "map_option (map_sum id pass_mapping)
           (obfuscateFunctions h P [(''_ZN1a1b1cEv'', False), (''_ZN1a1b1cEi'', False)])
         = Some (Inr [(''_ZN1a1b1cEi'', abc_obfuscated h (hasher_config (pass_hasher P))),
                      (''_ZN1a1b1cEv'', abc_obfuscated h (hasher_config (pass_hasher P)))])"
proof -
  let ?o = "abc_obfuscated h (hasher_config (pass_hasher P))"
  have cm: "mangler_mapping CppMangler_new = []" "namespace_cache CppMangler_new = []"
    "class_cache CppMangler_new = []" "method_cache CppMangler_new = []"
    by (simp_all add: CppMangler_new_def)
  obtain M1 where o1: "obfuscateCppSymbol h (pass_hasher P) CppMangler_new ''_ZN1a1b1cEv'' = Some (?o, M1)"
    and M1: "mangler_mapping M1 = [(''_ZN1a1b1cEv'', ?o)]"
      "namespace_cache M1 = [(''a'', ''N'' @ take 8 (generateHash h (hasher_config (pass_hasher P)) ''a'' ''ns''))]"
      "class_cache M1 = [(''b'', ''C'' @ take 10 (generateHash h (hasher_config (pass_hasher P)) ''b'' ''class''))]"
      "method_cache M1 = [(''c'', ''M'' @ take 10 (generateHash h (hasher_config (pass_hasher P)) ''c'' ''method''))]"
    using obfuscate_abc_first [OF cm, where name = "''_ZN1a1b1cEv''" and h = h and H = "pass_hasher P"]
    by simp
  define P1 where "P1 = P\<lparr>pass_cpp_mangler := M1, pass_mapping := [(''_ZN1a1b1cEv'', ?o)]\<rparr>"
  have f1: "obfuscateFunctionName h P ''_ZN1a1b1cEv'' = Some (Inr (?o, P\<lparr>pass_cpp_mangler := M1\<rparr>))"
    by (simp add: obfuscateFunctionName_def obfuscate_name_def isCppMangled_def M0 o1)
  have s1: "obfuscateFunctions h P [(''_ZN1a1b1cEv'', False), (''_ZN1a1b1cEi'', False)]
            = obfuscateFunctions h P1 [(''_ZN1a1b1cEi'', False)]"
    by (simp add: not_preserved_abc [OF ps] f1 mp P1_def)
  have ps1: "pass_preserve_symbols P1 = initializePreserveSet" and h1: "pass_hasher P1 = pass_hasher P"
    and m1: "pass_cpp_mangler P1 = M1" and mp1: "pass_mapping P1 = [(''_ZN1a1b1cEv'', ?o)]"
    by (simp_all add: P1_def ps)
  obtain M2 where o2: "obfuscateCppSymbol h (pass_hasher P) M1 ''_ZN1a1b1cEi'' = Some (?o, M2)"
    using obfuscate_abc_second [OF M1] by simp
  have f2: "obfuscateFunctionName h P1 ''_ZN1a1b1cEi'' = Some (Inr (?o, P1\<lparr>pass_cpp_mangler := M2\<rparr>))"
    by (simp add: obfuscateFunctionName_def obfuscate_name_def isCppMangled_def m1 h1 o2)
  have s2: "obfuscateFunctions h P1 [(''_ZN1a1b1cEi'', False)]
            = Some (Inr (P1\<lparr>pass_cpp_mangler := M2,
                   pass_mapping := [(''_ZN1a1b1cEi'', ?o), (''_ZN1a1b1cEv'', ?o)]\<rparr>))"
    by (simp add: not_preserved_abc [OF ps1] f2 mp1)
  show ?thesis
    unfolding s1 s2 by simp
qed


text \<open>
  Claim C1 (the code departs from it). Injectivity within a unit does not hold on the codec
  path: a run of the IR driver on a module that defines the two overloads
  \<^verbatim>\<open>_ZN1a1b1cEv\<close> and \<^verbatim>\<open>_ZN1a1b1cEi\<close> records the same obfuscated name for both, for
  every salt and whatever the digest is. \<^verbatim>\<open>parse\<close> never fills \<^verbatim>\<open>parameter_types\<close>,
  so the two names have the same components, and the codec does not consult a set of used
  names as \<^verbatim>\<open>generateUniqueHash\<close> does on the flat path.
\<close>

theorem codec_path_merges_overloads:
  "map_option (map_sum id pass_mapping) (run h (SymbolObfuscationPass_new salt) overload_module)
     = Some (Inr [(''_ZN1a1b1cEi'', abc_obfuscated h (run_config h salt overload_module)),
                  (''_ZN1a1b1cEv'', abc_obfuscated h (run_config h salt overload_module))])
   \<and> ''_ZN1a1b1cEi'' \<noteq> ''_ZN1a1b1cEv''"
proof -
  define P0 where "P0 = (if pass_salt (SymbolObfuscationPass_new salt) = []
      then (SymbolObfuscationPass_new salt)\<lparr>pass_salt := generateModuleSalt h overload_module,
             pass_hasher := setSalt (pass_hasher (SymbolObfuscationPass_new salt))
                              (generateModuleSalt h overload_module)\<rparr>
      else SymbolObfuscationPass_new salt)"
  have cfg: "hasher_config (pass_hasher P0) = run_config h salt overload_module"
    by (simp add: P0_def SymbolObfuscationPass_new_def CryptoHasher_new_def setSalt_def
          run_config_def)
  have M0: "pass_cpp_mangler P0 = CppMangler_new" and mp: "pass_mapping P0 = []"
    and ps: "pass_preserve_symbols P0 = initializePreserveSet"
    by (simp_all add: P0_def SymbolObfuscationPass_new_def)
  have fs: "ir_functions overload_module = [(''_ZN1a1b1cEv'', False), (''_ZN1a1b1cEi'', False)]"
    and gs: "ir_globals overload_module = []" and as: "ir_aliases overload_module = []"
    by (simp_all add: overload_module_def)
  let ?o = "abc_obfuscated h (run_config h salt overload_module)"
  from obfuscateFunctions_overloads [OF ps M0 mp, of h]
  obtain P1 where P1: "obfuscateFunctions h P0 (ir_functions overload_module) = Some (Inr P1)"
    and m1: "pass_mapping P1 = [(''_ZN1a1b1cEi'', ?o), (''_ZN1a1b1cEv'', ?o)]"
    unfolding fs cfg
    by (cases "obfuscateFunctions h P0 [(''_ZN1a1b1cEv'', False), (''_ZN1a1b1cEi'', False)]")
       (auto simp add: map_sum_def split: sum.splits)
  have "run h (SymbolObfuscationPass_new salt) overload_module = Some (Inr P1)"
    unfolding run_def P0_def [symmetric] Let_def P1 gs as
    by simp
  with m1 show ?thesis by simp
qed

text \<open>
  Claim C3 (the code departs from it). The parameter bytes of the input are not carried
  over: for \<^verbatim>\<open>_ZN1a1b1cEi\<close>, whose parameter encoding is \<^verbatim>\<open>i\<close>, the output ends in
  \<^verbatim>\<open>Ev\<close>. The second equation is the same run with the stand-in digest.
\<close>

theorem codec_drops_parameters:
  "map_option fst (obfuscateCppSymbol h H CppMangler_new ''_ZN1a1b1cEi'')
     = Some (''_ZN'' @ encodeLengthPrefix (''N'' @ take 8 (generateHash h (hasher_config H) ''a'' ''ns''))
               @ encodeLengthPrefix (''C'' @ take 10 (generateHash h (hasher_config H) ''b'' ''class''))
               @ encodeLengthPrefix (''M'' @ take 10 (generateHash h (hasher_config H) ''c'' ''method''))
               @ ''E'' @ ''v'')
   \<and> map_option fst (obfuscateCppSymbol test_host H0 CppMangler_new ''_ZN1a1b1cEi'')
     = Some ''_ZN9N0304050611C060708090a11M0708090a0bEv''"
proof -
  have cm: "mangler_mapping CppMangler_new = []" "namespace_cache CppMangler_new = []"
    "class_cache CppMangler_new = []" "method_cache CppMangler_new = []"
    by (simp_all add: CppMangler_new_def)
  have g: "map_option fst (obfuscateCppSymbol h H CppMangler_new ''_ZN1a1b1cEi'')
      = Some (abc_obfuscated h (hasher_config H))" for h H
    by (simp add: obfuscate_abc_first [OF cm])
  have c: "abc_obfuscated test_host (hasher_config H0) = ''_ZN9N0304050611C060708090a11M0708090a0bEv''"
    by code_simp
  have "map_option fst (obfuscateCppSymbol test_host H0 CppMangler_new ''_ZN1a1b1cEi'')
     = Some ''_ZN9N0304050611C060708090a11M0708090a0bEv''"
    unfolding g c ..
  moreover have "map_option fst (obfuscateCppSymbol h H CppMangler_new ''_ZN1a1b1cEi'')
     = Some (''_ZN'' @ encodeLengthPrefix (''N'' @ take 8 (generateHash h (hasher_config H) ''a'' ''ns''))
               @ encodeLengthPrefix (''C'' @ take 10 (generateHash h (hasher_config H) ''b'' ''class''))
               @ encodeLengthPrefix (''M'' @ take 10 (generateHash h (hasher_config H) ''c'' ''method''))
               @ ''E'' @ ''v'')"
    unfolding g by (simp add: abc_obfuscated_def)
  ultimately show ?thesis by blast
qed

text \<open>
  In general: \<^verbatim>\<open>parse\<close> leaves \<^verbatim>\<open>parameter_types\<close> empty whenever it returns, so every
  name \<^verbatim>\<open>reconstructMangled\<close> builds from its result ends in \<^verbatim>\<open>v\<close>.
\<close>

lemma parse_nested_parameter_types:
  assumes "parse_nested name pos c = Some c'"
  shows "parameter_types c' = parameter_types c"
proof (rule parse_nested.raw_induct
    [where P = "\<lambda>name pos c c'. parameter_types c' = parameter_types c", OF _ assms])
  fix f name pos c c'
  assume ih: "\<And>name pos c c'. f name pos c = Some c' \<Longrightarrow> parameter_types c' = parameter_types c"
    and step: "(if pos < length name \<and> name ! pos \<noteq> CHR ''E'' then
        (case read_length (drop pos name) 0 of
           (n, len) \<Rightarrow>
             if len > 0 \<and> size_t_add (pos + n) len \<le> length name then
               f name (size_t_add (pos + n) len)
                 (if namespace_name c = []
                  then c\<lparr>namespace_name := take (unat len) (drop (pos + n) name)\<rparr>
                  else if \<not> has_class c
                  then c\<lparr>class_name := take (unat len) (drop (pos + n) name),
                                   has_class := True\<rparr>
                  else c\<lparr>method_name := take (unat len) (drop (pos + n) name)\<rparr>)
             else Some c)
      else Some c) = Some c'"
  from step show "parameter_types c' = parameter_types c"
    by (auto split: if_splits prod.splits dest!: ih)
qed

lemma parse_parameter_types: "parse h name = Some c \<Longrightarrow> parameter_types c = []"
  by (auto simp add: parse_def CppSymbolComponents_new_def split: if_splits
      dest!: parse_nested_parameter_types)

lemma reconstructMangled_ends_v:
  "parameter_types c = [] \<Longrightarrow> \<exists>r. fst (reconstructMangled h H M c) = r @ ''v''"
  by (simp add: reconstructMangled_def encodeParameters_def split: prod.splits)

subsection \<open>Scenario S4\<close>

lemma parse_S4:
  assumes "name = ''_ZN6MyClass6methodEv'' \<or> name = ''_ZN6MyClass7method2Ev''"
  shows "parse h name =
     Some (CppSymbolComponents_new\<lparr>is_mangled := True, abi_prefix := ''_Z'',
             method_name := demangle h name, has_namespace := True,
             namespace_name := ''MyClas''\<rparr>)"
  using assms by (elim disjE) (simp_all add: parse_eval)

lemma generateHash_length_ge:
  "10 \<le> hash_length cfg \<Longrightarrow> 10 \<le> length (generateHash h cfg name salt)"
  using length_generateHash [of h cfg name salt] digest_chars_ge [of cfg] by simp

lemma to_string_9: "to_string 9 = ''9''" and to_string_11: "to_string 11 = ''11''"
  by code_simp+

lemma S4_token_lengths:
  assumes "10 \<le> hash_length (hasher_config H)"
  shows "encodeLengthPrefix (S4_namespace_token h H) = ''9'' @ S4_namespace_token h H"
    and "encodeLengthPrefix (S4_method_token h H name) = ''11'' @ S4_method_token h H name"
proof -
  have "min (length (generateHash h (hasher_config H) ''MyClas'' ''ns'')) 8 = 8"
    using generateHash_length_ge [OF assms, of h "''MyClas''" "''ns''"] by simp
  then show "encodeLengthPrefix (S4_namespace_token h H) = ''9'' @ S4_namespace_token h H"
    by (simp add: encodeLengthPrefix_def S4_namespace_token_def to_string_9)
  have "min (length (generateHash h (hasher_config H) (demangle h name) ''method'')) 10 = 10"
    using generateHash_length_ge [OF assms, of h "demangle h name" "''method''"] by simp
  then show "encodeLengthPrefix (S4_method_token h H name) = ''11'' @ S4_method_token h H name"
    by (simp add: encodeLengthPrefix_def S4_method_token_def to_string_11)
qed

lemma S4_reconstruct:
  assumes len: "10 \<le> hash_length (hasher_config H)"
    and d: "demangle h name \<noteq> []"
    and ns: "namespace_cache M = [] \<or> namespace_cache M = [(''MyClas'', S4_namespace_token h H)]"
    and mc: "method_cache M = [] \<or> (\<exists>other. method_cache M = [(demangle h other, S4_method_token h H other)])"
  shows "fst (reconstructMangled h H M
           (CppSymbolComponents_new\<lparr>is_mangled := True, abi_prefix := ''_Z'',
              method_name := demangle h name, has_namespace := True,
              namespace_name := ''MyClas''\<rparr>)) = S4_result h H name"
    and "namespace_cache (snd (reconstructMangled h H M
           (CppSymbolComponents_new\<lparr>is_mangled := True, abi_prefix := ''_Z'',
              method_name := demangle h name, has_namespace := True,
              namespace_name := ''MyClas''\<rparr>))) = [(''MyClas'', S4_namespace_token h H)]"
    and "method_cache M = [] \<Longrightarrow> method_cache (snd (reconstructMangled h H M
           (CppSymbolComponents_new\<lparr>is_mangled := True, abi_prefix := ''_Z'',
              method_name := demangle h name, has_namespace := True,
              namespace_name := ''MyClas''\<rparr>))) = [(demangle h name, S4_method_token h H name)]"
    and "mangler_mapping (snd (reconstructMangled h H M
           (CppSymbolComponents_new\<lparr>is_mangled := True, abi_prefix := ''_Z'',
              method_name := demangle h name, has_namespace := True,
              namespace_name := ''MyClas''\<rparr>))) = mangler_mapping M"
proof -
  let ?c = "CppSymbolComponents_new\<lparr>is_mangled := True, abi_prefix := ''_Z'',
              method_name := demangle h name, has_namespace := True,
              namespace_name := ''MyClas''\<rparr>"
  have c: "has_namespace ?c" "namespace_name ?c = ''MyClas''" "\<not> has_class ?c"
    "method_name ?c = demangle h name" "parameter_types ?c = []"
    by (simp_all add: CppSymbolComponents_new_def)
  obtain M1 where n: "obfuscateNamespace h H M ''MyClas'' = (S4_namespace_token h H, M1)"
    and M1: "namespace_cache M1 = [(''MyClas'', S4_namespace_token h H)]"
      "method_cache M1 = method_cache M" "mangler_mapping M1 = mangler_mapping M"
    using ns by (auto simp add: obfuscateNamespace_def map_count_def map_at_def
          S4_namespace_token_def Let_def)
  obtain M2 where m: "obfuscateMethodName h H M1 (demangle h name) = (S4_method_token h H name, M2)"
    and M2: "namespace_cache M2 = [(''MyClas'', S4_namespace_token h H)]"
      "method_cache M = [] \<Longrightarrow> method_cache M2 = [(demangle h name, S4_method_token h H name)]"
      "mangler_mapping M2 = mangler_mapping M"
  proof (cases "method_cache M = []")
    case True
    with M1 that show ?thesis
      by (simp add: obfuscateMethodName_def map_count_def map_at_def S4_method_token_def Let_def)
  next
    case False
    with mc obtain other where o: "method_cache M = [(demangle h other, S4_method_token h H other)]"
      by blast
    show ?thesis
    proof (cases "demangle h name = demangle h other")
      case True
      then have "S4_method_token h H other = S4_method_token h H name"
        by (simp add: S4_method_token_def)
      with True o M1 that [of M1] show ?thesis
        by (simp add: obfuscateMethodName_def map_count_def map_at_def)
    next
      case neq: False
      with o M1 False that show ?thesis
        by (simp add: obfuscateMethodName_def map_count_def map_at_def S4_method_token_def Let_def)
    qed
  qed
  have r: "reconstructMangled h H M ?c = (S4_result h H name, M2)"
    unfolding reconstructMangled_def
    by (simp add: c n m d encodeParameters_def S4_result_def S4_token_lengths [OF len])
  show "fst (reconstructMangled h H M ?c) = S4_result h H name"
    and "namespace_cache (snd (reconstructMangled h H M ?c)) = [(''MyClas'', S4_namespace_token h H)]"
    and "method_cache M = [] \<Longrightarrow> method_cache (snd (reconstructMangled h H M ?c))
          = [(demangle h name, S4_method_token h H name)]"
    and "mangler_mapping (snd (reconstructMangled h H M ?c)) = mangler_mapping M"
    using M2 by (simp_all add: r)
qed

lemma take_generateHash_hex: "list_all hex_char (take n (generateHash h cfg name salt))"
  using generateHash_hex [of h cfg name salt]
  by (auto simp add: list_all_iff dest: in_set_takeD)

lemma S4_obfuscate:
  assumes len: "10 \<le> hash_length (hasher_config H)"
    and d: "demangle h name \<noteq> []"
    and name: "name = ''_ZN6MyClass6methodEv'' \<or> name = ''_ZN6MyClass7method2Ev''"
    and mm: "map_of (mangler_mapping M) name = None"
    and ns: "namespace_cache M = [] \<or> namespace_cache M = [(''MyClas'', S4_namespace_token h H)]"
    and mc: "method_cache M = [] \<or> (\<exists>other. method_cache M = [(demangle h other, S4_method_token h H other)])"
  shows "\<exists>M'. obfuscateCppSymbol h H M name = Some (S4_result h H name, M')
      \<and> namespace_cache M' = [(''MyClas'', S4_namespace_token h H)]
      \<and> (method_cache M = [] \<longrightarrow> method_cache M' = [(demangle h name, S4_method_token h H name)])
      \<and> mangler_mapping M' = map_set (mangler_mapping M) name (S4_result h H name)"
proof -
  let ?c = "CppSymbolComponents_new\<lparr>is_mangled := True, abi_prefix := ''_Z'',
              method_name := demangle h name, has_namespace := True,
              namespace_name := ''MyClas''\<rparr>"
  have flags: "is_mangled ?c" "\<not> is_vtable ?c" "\<not> is_typeinfo ?c" "\<not> is_typeinfo_name ?c"
    by (simp_all add: CppSymbolComponents_new_def)
  note r = S4_reconstruct [OF len d ns mc]
  obtain out M1 where rm: "reconstructMangled h H M ?c = (out, M1)"
    by (cases "reconstructMangled h H M ?c")
  with r have "out = S4_result h H name"
    "namespace_cache M1 = [(''MyClas'', S4_namespace_token h H)]"
    "method_cache M = [] \<Longrightarrow> method_cache M1 = [(demangle h name, S4_method_token h H name)]"
    "mangler_mapping M1 = mangler_mapping M"
    by simp_all
  then show ?thesis
    unfolding obfuscateCppSymbol_def parse_S4 [OF name]
    by (simp add: map_count_def mm flags rm)
qed

text \<open>
  Claim C4, as amended. With a hash length of at least 10 and a demangler that returns a
  non-empty text, obfuscating \<^verbatim>\<open>_ZN6MyClass6methodEv\<close> with a fresh codec yields a name
  that matches \<^verbatim>\<open>^_ZN9N[0-9a-f]{8}11M[0-9a-f]{10}Ev$\<close>: the length prefix 6 cuts the first
  token to \<^verbatim>\<open>MyClas\<close>, which fills the namespace slot, parsing stops at the byte
  \<^verbatim>\<open>s\<close> that follows, and the method slot holds the demangler's text for the whole
  name. Obfuscating \<^verbatim>\<open>_ZN6MyClass7method2Ev\<close> afterwards yields a name of the same shape
  with the identical \<^verbatim>\<open>N\<close> token (namespace cache). There is no \<^verbatim>\<open>C\<close> token.
\<close>

theorem S4_as_implemented:
  assumes "10 \<le> hash_length (hasher_config H)"
    and "demangle h ''_ZN6MyClass6methodEv'' \<noteq> []"
    and "demangle h ''_ZN6MyClass7method2Ev'' \<noteq> []"
  shows "obfuscate_all h H CppMangler_new [''_ZN6MyClass6methodEv'', ''_ZN6MyClass7method2Ev'']
       = Some [''_ZN9'' @ S4_namespace_token h H @ ''11''
                 @ S4_method_token h H ''_ZN6MyClass6methodEv'' @ ''Ev'',
               ''_ZN9'' @ S4_namespace_token h H @ ''11''
                 @ S4_method_token h H ''_ZN6MyClass7method2Ev'' @ ''Ev'']
     \<and> match_atoms S4_code_pattern
          (''_ZN9'' @ S4_namespace_token h H @ ''11''
             @ S4_method_token h H ''_ZN6MyClass6methodEv'' @ ''Ev'')
     \<and> match_atoms S4_code_pattern
          (''_ZN9'' @ S4_namespace_token h H @ ''11''
             @ S4_method_token h H ''_ZN6MyClass7method2Ev'' @ ''Ev'')"
proof -
  let ?n1 = "''_ZN6MyClass6methodEv''" and ?n2 = "''_ZN6MyClass7method2Ev''"
  have cm: "map_of (mangler_mapping CppMangler_new) ?n1 = None"
    "namespace_cache CppMangler_new = [] \<or> namespace_cache CppMangler_new = [(''MyClas'', S4_namespace_token h H)]"
    "method_cache CppMangler_new = [] \<or> (\<exists>other. method_cache CppMangler_new = [(demangle h other, S4_method_token h H other)])"
    "method_cache CppMangler_new = []" "mangler_mapping CppMangler_new = []"
    by (simp_all add: CppMangler_new_def)
  from S4_obfuscate [OF assms(1,2) _ cm(1-3)] cm(4,5)
  obtain M1 where 1: "obfuscateCppSymbol h H CppMangler_new ?n1 = Some (S4_result h H ?n1, M1)"
    and ns1: "namespace_cache M1 = [(''MyClas'', S4_namespace_token h H)]"
    and mc1: "method_cache M1 = [(demangle h ?n1, S4_method_token h H ?n1)]"
    and mm1: "mangler_mapping M1 = [(?n1, S4_result h H ?n1)]"
    by auto
  have mm1': "map_of (mangler_mapping M1) ?n2 = None"
    by (simp add: mm1)
  from S4_obfuscate [OF assms(1,3) _ mm1', of ] ns1 mc1
  obtain M2 where 2: "obfuscateCppSymbol h H M1 ?n2 = Some (S4_result h H ?n2, M2)"
    by blast
  have tok: "length (take 8 (generateHash h (hasher_config H) ''MyClas'' ''ns'')) = 8"
    "length (take 10 (generateHash h (hasher_config H) (demangle h name) ''method'')) = 10" for name
    using generateHash_length_ge [OF assms(1), of h "''MyClas''" "''ns''"]
      generateHash_length_ge [OF assms(1), of h "demangle h name" "''method''"]
    by simp_all
  have m: "match_atoms S4_code_pattern
          (''_ZN9'' @ S4_namespace_token h H @ ''11'' @ S4_method_token h H name @ ''Ev'')" for name
    using tok(1) tok(2) [of name]
      take_generateHash_hex [where n = 8 and h = h and cfg = "hasher_config H"
        and name = "''MyClas''" and salt = "''ns''"]
      take_generateHash_hex [where n = 10 and h = h and cfg = "hasher_config H"
        and name = "demangle h name" and salt = "''method''"]
    by (simp add: S4_code_pattern_def S4_namespace_token_def S4_method_token_def)
  from 1 2 m show ?thesis
    by (simp add: S4_result_def)
qed

text \<open>The two names of the scenario on the stand-in host, with the default configuration.\<close>

lemma S4_result_test:
  "S4_result test_host H0 ''_ZN6MyClass6methodEv'' = ''_ZN9N08090a0b11M1a1b1c1d1eEv''"
  "S4_result test_host H0 ''_ZN6MyClass7method2Ev'' = ''_ZN9N08090a0b11M1b1c1d1e1fEv''"
  by code_simp+

lemma S4_hypotheses_test:
  "10 \<le> hash_length (hasher_config H0)"
  "demangle test_host ''_ZN6MyClass6methodEv'' \<noteq> []"
  "demangle test_host ''_ZN6MyClass7method2Ev'' \<noteq> []"
  by (simp_all add: H0_def CryptoHasher_new_def default_HashConfig_def demangle_def test_host_def)

theorem S4_as_implemented_witness:
  "10 \<le> hash_length (hasher_config H0)
   \<and> demangle test_host ''_ZN6MyClass6methodEv'' \<noteq> []
   \<and> demangle test_host ''_ZN6MyClass7method2Ev'' \<noteq> []
   \<and> obfuscate_all test_host H0 CppMangler_new [''_ZN6MyClass6methodEv'', ''_ZN6MyClass7method2Ev'']
       = Some [''_ZN9N08090a0b11M1a1b1c1d1eEv'', ''_ZN9N08090a0b11M1b1c1d1e1fEv'']
   \<and> match_atoms S4_code_pattern ''_ZN9N08090a0b11M1a1b1c1d1eEv''
   \<and> match_atoms S4_code_pattern ''_ZN9N08090a0b11M1b1c1d1e1fEv''"
  using S4_as_implemented [OF S4_hypotheses_test] S4_hypotheses_test
  unfolding S4_result_def [symmetric] S4_result_test
  by blast

text \<open>
  Claim C4, as stated, fails: the name the codec returns for \<^verbatim>\<open>_ZN6MyClass6methodEv\<close>
  does not match \<^verbatim>\<open>^_ZN[0-9]+C[0-9a-f]{10}[0-9]+M[0-9a-f]{10}Ev$\<close>, since an \<^verbatim>\<open>N\<close>
  token follows the first length prefix.
\<close>

theorem S4_counterexample:
  "obfuscate_all test_host H0 CppMangler_new [''_ZN6MyClass6methodEv'']
     = Some [''_ZN9N08090a0b11M1a1b1c1d1eEv'']
   \<and> \<not> match_atoms S4_pattern ''_ZN9N08090a0b11M1a1b1c1d1eEv''"
proof -
  have cm: "map_of (mangler_mapping CppMangler_new) ''_ZN6MyClass6methodEv'' = None"
    "namespace_cache CppMangler_new = []
      \<or> namespace_cache CppMangler_new = [(''MyClas'', S4_namespace_token test_host H0)]"
    "method_cache CppMangler_new = []
      \<or> (\<exists>other. method_cache CppMangler_new
            = [(demangle test_host other, S4_method_token test_host H0 other)])"
    by (simp_all add: CppMangler_new_def)
  from S4_obfuscate [OF S4_hypotheses_test(1,2) _ cm]
  obtain M' where "obfuscateCppSymbol test_host H0 CppMangler_new ''_ZN6MyClass6methodEv''
      = Some (S4_result test_host H0 ''_ZN6MyClass6methodEv'', M')"
    by auto
  then have "obfuscate_all test_host H0 CppMangler_new [''_ZN6MyClass6methodEv'']
     = Some [''_ZN9N08090a0b11M1a1b1c1d1eEv'']"
    by (simp add: S4_result_test)
  moreover have "\<not> match_atoms S4_pattern ''_ZN9N08090a0b11M1a1b1c1d1eEv''"
    by (simp add: S4_pattern_def isdigit_def)
  ultimately show ?thesis by simp
qed

text \<open>
  The pattern is not matched with the length prefix 7 either, which gives \<^verbatim>\<open>MyClass\<close>
  whole: the first token is still the \<^verbatim>\<open>N\<close> token of the namespace slot.
\<close>

lemma S4_pattern_sanity:
  "match_atoms S4_pattern ''_ZN11C08090a0b0c11M1a1b1c1d1eEv''"
  "\<not> match_atoms S4_pattern ''_ZN9N090a0b0c11C0b0c0d0e0f11M1718191a1bEv''"
  by (simp_all add: S4_pattern_def isdigit_def hex_char_def)


section \<open>Properties of the drivers\<close>

subsection \<open>Preservation of \<^verbatim>\<open>main\<close>\<close>

lemma main_is_keyword: "shouldPreserve h B ''main''"
  by (simp add: shouldPreserve_def cpp_keywords_def)

text \<open>
  Claim C2 (the code departs from it). With \<^verbatim>\<open>--no-preserve-main\<close> the tool erases
  \<^verbatim>\<open>main\<close> from \<^verbatim>\<open>preserve_symbols\<close>, but \<^verbatim>\<open>shouldPreserve\<close> finds \<^verbatim>\<open>main\<close> in its
  keyword set first: a run on a source whose only declared function is \<^verbatim>\<open>main\<close> writes
  the source back unchanged and exports an empty mapping, so \<^verbatim>\<open>main\<close> is not renamed to
  \<^verbatim>\<open>f_<hash>\<close>. The IR driver keeps \<^verbatim>\<open>main\<close> as well when \<^verbatim>\<open>preserve_main_\<close> is
  false, since its preserve set contains it.
\<close>

theorem no_preserve_main_keeps_main:
  "''main'' \<notin> preserve_symbols (cli_config no_preserve_main)
   \<and> shouldPreserve h (CSymbolObfuscator_new (cli_config no_preserve_main)) ''main''
   \<and> cli_run h no_preserve_main source_code [''main''] []
       = Some (Inr (source_code,
                    Some (exportMapping (CSymbolObfuscator_new (cli_config no_preserve_main))),
                    CSymbolObfuscator_new (cli_config no_preserve_main)))
   \<and> obf_mappings (CSymbolObfuscator_new (cli_config no_preserve_main)) = []
   \<and> pass_shouldPreserve (setPreserveMain (SymbolObfuscationPass_new salt) False) ''main''"
proof (intro conjI)
  show "''main'' \<notin> preserve_symbols (cli_config no_preserve_main)"
    by (simp add: cli_config_def no_preserve_main_def default_CliOptions_def)
  show "shouldPreserve h (CSymbolObfuscator_new (cli_config no_preserve_main)) ''main''"
    by (rule main_is_keyword)
  have g: "generate_map (obf_config (CSymbolObfuscator_new (cli_config no_preserve_main)))"
    by (simp add: CSymbolObfuscator_new_def cli_config_def no_preserve_main_def
          default_CliOptions_def)
  show "cli_run h no_preserve_main source_code [''main''] []
       = Some (Inr (source_code,
                    Some (exportMapping (CSymbolObfuscator_new (cli_config no_preserve_main))),
                    CSymbolObfuscator_new (cli_config no_preserve_main)))"
    by (simp add: cli_run_def obfuscateSymbols_def parseDeclarations_def main_is_keyword
          generateMapping_def applyObfuscation_def sorted_mapping_def g)
  show "obf_mappings (CSymbolObfuscator_new (cli_config no_preserve_main)) = []"
    by (simp add: CSymbolObfuscator_new_def)
  show "pass_shouldPreserve (setPreserveMain (SymbolObfuscationPass_new salt) False) ''main''"
    by (simp add: pass_shouldPreserve_def setPreserveMain_def SymbolObfuscationPass_new_def
          initializePreserveSet_def)
qed


section \<open>Properties of the mapping store\<close>

text \<open>
  Claim C6 (the code departs from it). Neither document has the four top-level fields:
  \<^verbatim>\<open>exportMapping\<close> writes \<^verbatim>\<open>hash_algorithm\<close>, \<^verbatim>\<open>symbols\<close> and \<^verbatim>\<open>version\<close> but no
  \<^verbatim>\<open>salt\<close>; \<^verbatim>\<open>saveMapping\<close> of the IR pass writes \<^verbatim>\<open>salt\<close>, \<^verbatim>\<open>symbols\<close> and
  \<^verbatim>\<open>version\<close> but no \<^verbatim>\<open>hash_algorithm\<close>.
\<close>

theorem mapping_documents_lack_a_field:
  "json_keys (exportMapping B) = [''hash_algorithm'', ''symbols'', ''version'']
   \<and> ''salt'' \<notin> set (json_keys (exportMapping B))
   \<and> json_keys (saveMapping P) = [''salt'', ''symbols'', ''version'']
   \<and> ''hash_algorithm'' \<notin> set (json_keys (saveMapping P))"
  by (simp add: json_keys_def exportMapping_def saveMapping_def)

lemma SymbolType_roundtrip: "SymbolType_of_int (SymbolType_to_int t) = t"
  by (cases t) (simp_all add: SymbolType_of_int_def)

lemma Linkage_roundtrip: "Linkage_of_int (Linkage_to_int l) = l"
  by (cases l) (simp_all add: Linkage_of_int_def)

lemma asInt_sint: "asInt (JNumber (sint (w :: 32 word))) = Inr w"
  using sint_ge [of w] sint_lt [of w] by (simp add: asInt_def)

lemma asUInt64_uint: "asUInt64 (JNumber (uint (w :: 64 word))) = Inr w"
  using uint_lt2p [of w] by (simp add: asUInt64_def)

lemma asString_JString: "asString (JString s) = Inr s"
  by (simp add: asString_def)

lemma symbol_json_members:
  "json_member (symbol_to_json m) ''original'' = JString (original_name m)"
  "json_member (symbol_to_json m) ''obfuscated'' = JString (obfuscated_name m)"
  "json_member (symbol_to_json m) ''type'' = JNumber (sint (SymbolType_to_int (symbol_type m)))"
  "json_member (symbol_to_json m) ''linkage'' = JNumber (sint (Linkage_to_int (linkage m)))"
  "json_member (symbol_to_json m) ''address'' = JNumber (uint (address m))"
  "json_member (symbol_to_json m) ''size'' = JNumber (uint (symbol_size m))"
  "json_member (symbol_to_json m) ''source_file'' = JString (source_file m)"
  "json_member (symbol_to_json m) ''line'' = JNumber (sint (line_number m))"
  by (simp_all add: json_member_def symbol_to_json_def)

lemma symbol_roundtrip: "symbol_of_json (symbol_to_json m) = Inr m"
  by (simp add: symbol_of_json_def symbol_json_members asInt_sint asUInt64_uint asString_JString
        SymbolType_roundtrip Linkage_roundtrip)

lemma symbols_roundtrip: "symbols_of_json (map symbol_to_json ms) = Inr ms"
  by (induction ms) (simp_all add: symbol_roundtrip)

lemma exported_symbols:
  "json_elements (json_member (exportMapping B) ''symbols'') = map symbol_to_json (obf_mappings B)"
  by (simp add: json_elements_def json_member_def exportMapping_def)

text \<open>
  Claim C7. Round trip of the mapping: importing the document that \<^verbatim>\<open>exportMapping\<close>
  built from the entries of an obfuscator restores exactly these entries, in order, each
  with its original and obfuscated name, type, linkage, address, size, source file and
  line.
\<close>

theorem mapping_roundtrip:
  "importMapping B' file_path (Some (exportMapping B)) = Inr (B'\<lparr>obf_mappings := obf_mappings B\<rparr>)"
  by (simp add: importMapping_def exported_symbols symbols_roundtrip)


section \<open>Properties of the text rewriter\<close>

text \<open>
  \<^verbatim>\<open>replaceSymbol\<close> searches with \<^verbatim>\<open>find\<close> and, after a match it rejects, skips the whole
  match. The lemmas below relate this to reading the text character by character.
\<close>

lemma rewrite_qualifying:
  "qualifies prev original (c # cs) \<Longrightarrow>
   rewrite_words prev original obfuscated (c # cs) =
   obfuscated @ rewrite_words (Some (last original)) original obfuscated
                  (drop (length original) (c # cs))"
  by (simp add: rewrite_words.simps(2))

lemma rewrite_copy:
  "\<not> qualifies prev original (c # cs) \<Longrightarrow>
   rewrite_words prev original obfuscated (c # cs) =
   c # rewrite_words (Some c) original obfuscated cs"
  by (simp add: rewrite_words.simps(2))

lemma first_match_None:
  "first_match original s = None \<Longrightarrow> rewrite_words prev original obfuscated s = s"
proof (induction s arbitrary: prev)
  case Nil
  then show ?case by simp
next
  case (Cons c cs)
  from Cons.prems have ne: "take (length original) (c # cs) \<noteq> original"
    and rest: "first_match original cs = None"
    by (auto split: if_splits)
  from ne have "\<not> qualifies prev original (c # cs)"
    by (simp add: qualifies_def)
  with Cons.IH [OF rest] show ?case
    by (simp add: rewrite_copy)
qed

lemma first_match_bound:
  "first_match original s = Some k \<Longrightarrow>
   k + length original \<le> length s \<and> take (length original) (drop k s) = original"
proof (induction s arbitrary: k)
  case Nil
  then show ?case by (auto split: if_splits)
next
  case (Cons c cs)
  show ?case
  proof (cases "take (length original) (c # cs) = original")
    case True
    with Cons.prems have "k = 0" by simp
    moreover have "length (take (length original) (c # cs)) = length original"
      using True by simp
    then have "length original \<le> length (c # cs)"
      by (simp del: take_Suc_Cons)
    ultimately show ?thesis using True by simp
  next
    case False
    with Cons.prems obtain k' where "first_match original cs = Some k'" "k = Suc k'"
      by auto
    with Cons.IH [of k'] show ?thesis by simp
  qed
qed

text \<open>Up to the first occurrence the input is copied.\<close>

lemma rewrite_first_match:
  assumes "original \<noteq> []" "first_match original s = Some k"
  shows "rewrite_words prev original obfuscated s =
         take k s @ rewrite_words (if k = 0 then prev else Some (last (take k s)))
                         original obfuscated (drop k s)"
  using assms(2)
proof (induction s arbitrary: k prev)
  case Nil
  with assms(1) show ?case by simp
next
  case (Cons c cs)
  show ?case
  proof (cases "take (length original) (c # cs) = original")
    case True
    with Cons.prems have "k = 0" by simp
    then show ?thesis by simp
  next
    case False
    with Cons.prems obtain k' where k': "first_match original cs = Some k'" "k = Suc k'"
      by auto
    from False have nq: "\<not> qualifies prev original (c # cs)"
      by (simp add: qualifies_def)
    from first_match_bound [OF k'(1)] have le: "k' \<le> length cs" by simp
    have l: "(if k' = 0 then Some c else Some (last (take k' cs))) = Some (last (take k (c # cs)))"
      using k'(2) le by (cases cs) auto
    show ?thesis
      using Cons.IH [OF k'(1), of "Some c"] k'(2) l
      by (simp add: rewrite_copy [OF nq])
  qed
qed

text \<open>Behind an identifier character a run of identifier characters is copied.\<close>

lemma rewrite_identifier_run:
  assumes "list_all isIdentifierChar xs" "isIdentifierChar c0"
  shows "rewrite_words (Some c0) original obfuscated (xs @ tail) =
         xs @ rewrite_words (Some (last (c0 # xs))) original obfuscated tail"
  using assms
proof (induction xs arbitrary: c0)
  case Nil
  then show ?case by simp
next
  case (Cons x xs)
  from Cons.prems(2) have "\<not> qualifies (Some c0) original ((x # xs) @ tail)"
    by (simp add: qualifies_def boundary_before_def)
  then have "rewrite_words (Some c0) original obfuscated ((x # xs) @ tail) =
             x # rewrite_words (Some x) original obfuscated (xs @ tail)"
    using rewrite_copy [of "Some c0" original x "xs @ tail"] by simp
  with Cons.IH [of x] Cons.prems(1) show ?case by simp
qed

lemma rewrite_rejected_match:
  assumes ne: "original \<noteq> []" and ident: "list_all isIdentifierChar original"
    and nq: "\<not> qualifies prev original (original @ tail)"
  shows "rewrite_words prev original obfuscated (original @ tail) =
         original @ rewrite_words (Some (last original)) original obfuscated tail"
proof -
  from ne obtain c cs where o: "original = c # cs" by (cases original) auto
  from ident o have c: "isIdentifierChar c" and cs: "list_all isIdentifierChar cs" by simp_all
  from nq o have "rewrite_words prev original obfuscated (original @ tail) =
      c # rewrite_words (Some c) original obfuscated (cs @ tail)"
    using rewrite_copy [of prev original c "cs @ tail"] by simp
  also have "\<dots> = c # cs @ rewrite_words (Some (last (c # cs))) original obfuscated tail"
    using rewrite_identifier_run [OF cs c] by simp
  finally show ?thesis using o by simp
qed

lemma string_find_behind:
  "string_find (front @ rest) original (length front) =
   map_option ((+) (length front)) (first_match original rest)"
  by (simp add: string_find_def)

lemma isWholeWord_split:
  "isWholeWord (front @ original @ tail) (length front) original \<longleftrightarrow>
   \<not> (front \<noteq> [] \<and> isIdentifierChar (last front)) \<and> boundary_after tail"
proof -
  have before: "(front @ original @ tail) ! (length front - 1) = last front" if "front \<noteq> []"
    using that by (simp add: nth_append last_conv_nth)
  have after: "(front @ original @ tail) ! (length front + length original) = hd tail"
    if "tail \<noteq> []"
    using that by (simp add: nth_append hd_conv_nth)
  show ?thesis
  proof (cases "tail = []")
    case True
    then show ?thesis
      using before by (auto simp add: isWholeWord_def boundary_after_def)
  next
    case False
    then obtain d ds where "tail = d # ds" by (cases tail) auto
    then show ?thesis
      using before after [OF False]
      by (auto simp add: isWholeWord_def boundary_after_def)
  qed
qed

text \<open>
  The loop invariant. \<open>front\<close> is what the loop has finished and \<open>rest\<close> is the input
  still to be read; \<open>prev\<close> is the input character before \<open>rest\<close>. The last character
  of \<open>front\<close> may differ from \<open>prev\<close> in kind only right behind a replacement, and there
  \<open>rest\<close> does not start with an identifier character.
\<close>

lemma replaceSymbol_loop_refines:
  assumes ne: "original \<noteq> []" and ident: "list_all isIdentifierChar original"
  shows "(\<not> boundary_before prev \<longleftrightarrow> front \<noteq> [] \<and> isIdentifierChar (last front))
           \<or> boundary_after rest \<Longrightarrow>
         replaceSymbol_loop (front @ rest) original obfuscated (length front) =
         Some (front @ rewrite_words prev original obfuscated rest)"
proof (induction "length rest" arbitrary: front rest prev rule: less_induct)
  case less
  show ?case
  proof (cases "first_match original rest")
    case None
    then show ?thesis
      by (subst replaceSymbol_loop.simps)
         (simp add: string_find_behind first_match_None)
  next
    case (Some k)
    define tail where "tail = drop (k + length original) rest"
    define front' where "front' = front @ take k rest"
    define prev' where "prev' = (if k = 0 then prev else Some (last (take k rest)))"
    from first_match_bound [OF Some] have k: "k + length original \<le> length rest"
      and occ: "take (length original) (drop k rest) = original"
      by simp_all
    have dk: "drop k rest = original @ tail"
      using occ append_take_drop_id [of "length original" "drop k rest"]
      by (simp add: tail_def add.commute)
    have rest: "rest = take k rest @ original @ tail"
      using dk append_take_drop_id [of k rest] by simp
    have code: "front @ rest = front' @ original @ tail"
      using rest by (simp add: front'_def)
    have p: "length front + k = length front'"
      using k by (simp add: front'_def)
    have lt: "length tail = length rest - (k + length original)"
      by (simp add: tail_def)
    have "0 < length original" using ne by simp
    with k lt have shorter: "length tail < length rest"
      by arith
    have spec: "rewrite_words prev original obfuscated rest =
                take k rest @ rewrite_words prev' original obfuscated (original @ tail)"
      using rewrite_first_match [OF ne Some, of prev obfuscated] dk
      by (simp add: prev'_def)
    have hd_ident: "\<not> boundary_after (original @ tail)"
      using ne ident by (cases original) (simp_all add: boundary_after_def)
    have consistent: "\<not> boundary_before prev' \<longleftrightarrow> front' \<noteq> [] \<and> isIdentifierChar (last front')"
    proof (cases "k = 0")
      case True
      then have "front' = front" "prev' = prev" "rest = original @ tail"
        using dk by (simp_all add: front'_def prev'_def)
      with less.prems hd_ident show ?thesis by simp
    next
      case False
      with k have "take k rest \<noteq> []" by auto
      with False show ?thesis
        by (simp add: front'_def prev'_def boundary_before_def)
    qed
    have whole: "isWholeWord (front' @ original @ tail) (length front') original \<longleftrightarrow>
                 qualifies prev' original (original @ tail)"
      using consistent ne by (auto simp add: isWholeWord_split qualifies_def)
    have find: "string_find (front' @ original @ tail) original (length front) = Some (length front')"
      using string_find_behind [of front rest original] Some p code by simp
    show ?thesis
    proof (cases "qualifies prev' original (original @ tail)")
      case True
      then have ba: "boundary_after tail"
        by (simp add: qualifies_def)
      have "replaceSymbol_loop (front @ rest) original obfuscated (length front) =
            replaceSymbol_loop ((front' @ obfuscated) @ tail) original obfuscated
              (length (front' @ obfuscated))"
        unfolding code
        by (subst replaceSymbol_loop.simps)
           (simp add: find whole True string_replace_def)
      also have "\<dots> = Some ((front' @ obfuscated)
                    @ rewrite_words (Some (last original)) original obfuscated tail)"
        by (rule less.hyps [OF shorter]) (simp add: ba)
      also have "rewrite_words prev' original obfuscated (original @ tail) =
                 obfuscated @ rewrite_words (Some (last original)) original obfuscated tail"
        using True ne rewrite_qualifying [of prev' original "hd original" "tl original @ tail" obfuscated]
        by (cases original) simp_all
      then have "(front' @ obfuscated) @ rewrite_words (Some (last original)) original obfuscated tail
            = front @ rewrite_words prev original obfuscated rest"
        by (simp add: spec front'_def)
      finally show ?thesis .
    next
      case False
      have li: "isIdentifierChar (last original)"
        using ne ident by (simp add: list_all_iff)
      have "replaceSymbol_loop (front @ rest) original obfuscated (length front) =
            replaceSymbol_loop ((front' @ original) @ tail) original obfuscated
              (length (front' @ original))"
        unfolding code
        by (subst replaceSymbol_loop.simps) (simp add: find whole False)
      also have "\<dots> = Some ((front' @ original)
                    @ rewrite_words (Some (last original)) original obfuscated tail)"
        by (rule less.hyps [OF shorter]) (simp add: boundary_before_def li ne)
      also have "(front' @ original) @ rewrite_words (Some (last original)) original obfuscated tail
            = front @ rewrite_words prev original obfuscated rest"
        using rewrite_rejected_match [OF ne ident False, of obfuscated]
        by (simp add: spec front'_def)
      finally show ?thesis .
    qed
  qed
qed

text \<open>One call of \<^verbatim>\<open>replaceSymbol\<close> is one whole-identifier rewriting of the text.\<close>

lemma replaceSymbol_refines:
  assumes "original \<noteq> []" "list_all isIdentifierChar original"
  shows "replaceSymbol code original obfuscated
         = Some (rewrite_words None original obfuscated code)"
proof -
  have "replaceSymbol_loop ([] @ code) original obfuscated (length ([] :: string)) =
             Some ([] @ rewrite_words None original obfuscated code)"
    using assms by (intro replaceSymbol_loop_refines) (simp_all add: boundary_before_def)
  then show ?thesis
    by (simp add: replaceSymbol_def)
qed

text \<open>The calls for a list of entries: each works on the result of the one before.\<close>

lemma replace_each_refines:
  "\<forall>entry \<in> set entries. fst entry \<noteq> [] \<and> list_all isIdentifierChar (fst entry) \<Longrightarrow>
   replace_each code entries = Some (rewrite_each code entries)"
proof (induction entries arbitrary: code)
  case Nil
  show ?case by simp
next
  case (Cons entry entries)
  obtain original obfuscated where e: "entry = (original, obfuscated)"
    by (cases entry)
  with Cons.prems have "replaceSymbol code original obfuscated
      = Some (rewrite_words None original obfuscated code)"
    by (simp add: replaceSymbol_refines)
  with Cons e show ?case by simp
qed

subsection \<open>The order of the entries\<close>

lemma sorted_mapping_descending:
  "sorted_wrt (\<lambda>a b. length (fst b) \<le> length (fst a)) (sorted_mapping h mapping)"
proof -
  have "sorted (map (\<lambda>entry. - int (length (fst entry))) (sorted_mapping h mapping))"
    unfolding sorted_mapping_def by (rule sorted_sort_key)
  then show ?thesis
    by (simp add: sorted_map)
qed

lemma mset_sorted_mapping: "mset (sorted_mapping h mapping) = mset mapping"
  by (simp add: sorted_mapping_def)

text \<open>
  Every arrangement of the vector in descending order of the length of the original is
  the sorted vector for some choice of the library.
\<close>

lemma sorted_mapping_any_order:
  assumes "mset v = mset mapping"
    and "sorted_wrt (\<lambda>a b. length (fst b) \<le> length (fst a)) v"
  shows "sorted_mapping (h\<lparr>std_sort_choice := \<lambda>_. v\<rparr>) mapping = v"
proof -
  have "sorted (map (\<lambda>entry. - int (length (fst entry))) v)"
    using assms(2) by (simp add: sorted_map)
  then have "sort_key (\<lambda>entry. - int (length (fst entry))) v = v"
    by (rule sort_key_id_if_sorted)
  with assms(1) show ?thesis
    by (simp add: sorted_mapping_def)
qed

subsection \<open>Whole identifiers, and what is scanned again\<close>

lemmas rewrite_eval = rewrite_words.simps(2) qualifies_def boundary_before_def boundary_after_def
  isIdentifierChar_def isalnum_def isalpha_def isdigit_def

text \<open>
  Claim C8, as stated, fails in its last part. The mapping \<^verbatim>\<open>ab\<close> to \<^verbatim>\<open>c\<close>, \<^verbatim>\<open>c\<close> to
  \<^verbatim>\<open>d\<close> has originals of different lengths, so \<^verbatim>\<open>ab\<close> is handled first whatever the
  library does. In the text \<^verbatim>\<open>ab c\<close> the call for \<^verbatim>\<open>ab\<close> inserts \<^verbatim>\<open>c\<close>; the call for
  \<^verbatim>\<open>c\<close> then scans the buffer from position 0 and replaces the inserted \<^verbatim>\<open>c\<close> as well:
  the result is \<^verbatim>\<open>d d\<close>, where a rewriter that never scans substituted text gives
  \<^verbatim>\<open>c d\<close>.
\<close>

theorem rewriter_scans_inserted_text_again:
  "replaceSymbol ''ab c'' ''ab'' ''c'' = Some ''c c''
   \<and> replaceSymbol ''c c'' ''c'' ''d'' = Some ''d d''
   \<and> sorted_mapping test_host [(''ab'', ''c''), (''c'', ''d'')] = [(''ab'', ''c''), (''c'', ''d'')]
   \<and> applyObfuscation test_host ''ab c'' [(''ab'', ''c''), (''c'', ''d'')] = Some ''d d''"
proof -
  have 1: "replaceSymbol ''ab c'' ''ab'' ''c'' = Some ''c c''"
    by (subst replaceSymbol_refines) (simp_all add: rewrite_eval)
  have 2: "replaceSymbol ''c c'' ''c'' ''d'' = Some ''d d''"
    by (subst replaceSymbol_refines) (simp_all add: rewrite_eval)
  have 3: "sorted_mapping test_host [(''ab'', ''c''), (''c'', ''d'')]
           = [(''ab'', ''c''), (''c'', ''d'')]"
    by (simp add: sorted_mapping_def test_host_def)
  have "applyObfuscation test_host ''ab c'' [(''ab'', ''c''), (''c'', ''d'')] = Some ''d d''"
    unfolding applyObfuscation_def 3 by (simp add: 1 2)
  with 1 2 3 show ?thesis by blast
qed

text \<open>
  Claim C8, as amended. For a mapped original name (a non-empty identifier) one call of
  \<^verbatim>\<open>replaceSymbol\<close> returns, and it replaces exactly the matches whose preceding character
  (if any) and following character (if any) are not identifier characters, in the buffer
  as it stands when that original is handled: its result is \<open>rewrite_words\<close> of the
  buffer. \<^verbatim>\<open>applyObfuscation\<close> handles the entries of the mapping in descending order of
  the length of the original (the sorted vector is a rearrangement of the entries in which
  no original is longer than one before it; the order of originals of equal length is the
  library's), each with one call on the result of the calls before it, so the text a call
  inserted is scanned by every later call. Within one call, after a replacement at \<open>p\<close>
  the scan goes on at \<open>p\<close> plus the length of the obfuscated name, behind the inserted
  text.
\<close>

theorem replaceSymbol_whole_identifiers:
  "(original \<noteq> [] \<and> list_all isIdentifierChar original \<longrightarrow>
      replaceSymbol code original obfuscated = Some (rewrite_words None original obfuscated code))
   \<and> sorted_wrt (\<lambda>a b. length (fst b) \<le> length (fst a)) (sorted_mapping h mapping)
   \<and> mset (sorted_mapping h mapping) = mset mapping
   \<and> ((\<forall>entry \<in> set mapping. fst entry \<noteq> [] \<and> list_all isIdentifierChar (fst entry)) \<longrightarrow>
        applyObfuscation h code mapping = Some (rewrite_each code (sorted_mapping h mapping)))
   \<and> (string_find code original pos = Some p \<and> isWholeWord code p original \<longrightarrow>
        replaceSymbol_loop code original obfuscated pos =
        replaceSymbol_loop (take p code @ obfuscated @ drop (p + length original) code)
          original obfuscated (p + length obfuscated))"
proof (intro conjI impI)
  assume "original \<noteq> [] \<and> list_all isIdentifierChar original"
  then show "replaceSymbol code original obfuscated
             = Some (rewrite_words None original obfuscated code)"
    by (simp add: replaceSymbol_refines)
next
  show "sorted_wrt (\<lambda>a b. length (fst b) \<le> length (fst a)) (sorted_mapping h mapping)"
    by (rule sorted_mapping_descending)
  show "mset (sorted_mapping h mapping) = mset mapping"
    by (rule mset_sorted_mapping)
next
  assume a: "\<forall>entry \<in> set mapping. fst entry \<noteq> [] \<and> list_all isIdentifierChar (fst entry)"
  have "set (sorted_mapping h mapping) = set mapping"
    using mset_sorted_mapping [of h mapping] by (rule mset_eq_setD)
  with a have "\<forall>entry \<in> set (sorted_mapping h mapping).
        fst entry \<noteq> [] \<and> list_all isIdentifierChar (fst entry)"
    by simp
  then show "applyObfuscation h code mapping
             = Some (rewrite_each code (sorted_mapping h mapping))"
    unfolding applyObfuscation_def by (rule replace_each_refines)
next
  assume "string_find code original pos = Some p \<and> isWholeWord code p original"
  then show "replaceSymbol_loop code original obfuscated pos =
        replaceSymbol_loop (take p code @ obfuscated @ drop (p + length original) code)
          original obfuscated (p + length obfuscated)"
    by (subst replaceSymbol_loop.simps) (simp add: string_replace_def)
qed

text \<open>A text with \<^verbatim>\<open>foo\<close> and \<^verbatim>\<open>foo_bar\<close> both mapped (scenario S7).\<close>

lemma rewrite_foo:
  "rewrite_words None ''foo'' ''f_1'' ''foo(foo_bar, xfoo, foo)'' = ''f_1(foo_bar, xfoo, f_1)''"
  by (simp add: rewrite_eval)

lemma sorted_foo:
  "sorted_mapping test_host [(''foo'', ''f_1''), (''foo_bar'', ''v_2'')]
   = [(''foo_bar'', ''v_2''), (''foo'', ''f_1'')]"
  by (simp add: sorted_mapping_def test_host_def)

lemma rewrite_foo_bar:
  "rewrite_words None ''foo_bar'' ''v_2'' ''foo(foo_bar, xfoo, foo)'' = ''foo(v_2, xfoo, foo)''"
  by (simp add: rewrite_eval)

lemma rewrite_foo_after:
  "rewrite_words None ''foo'' ''f_1'' ''foo(v_2, xfoo, foo)'' = ''f_1(v_2, xfoo, f_1)''"
  by (simp add: rewrite_eval)

theorem replaceSymbol_whole_identifiers_witness:
  "''foo'' \<noteq> [] \<and> list_all isIdentifierChar ''foo''
   \<and> replaceSymbol ''foo(foo_bar, xfoo, foo)'' ''foo'' ''f_1'' = Some ''f_1(foo_bar, xfoo, f_1)''
   \<and> list_all (\<lambda>entry. fst entry \<noteq> [] \<and> list_all isIdentifierChar (fst entry))
         [(''foo'', ''f_1''), (''foo_bar'', ''v_2'')]
   \<and> applyObfuscation test_host ''foo(foo_bar, xfoo, foo)''
         [(''foo'', ''f_1''), (''foo_bar'', ''v_2'')]
       = Some ''f_1(v_2, xfoo, f_1)''
   \<and> string_find ''foo(x)'' ''foo'' 0 = Some 0
   \<and> isWholeWord ''foo(x)'' 0 ''foo''
   \<and> replaceSymbol_loop ''foo(x)'' ''foo'' ''f_1'' 0
       = replaceSymbol_loop ''f_1(x)'' ''foo'' ''f_1'' 3"
proof -
  note t = replaceSymbol_whole_identifiers
  have f: "string_find ''foo(x)'' ''foo'' 0 = Some 0"
    by (simp add: string_find_def)
  have w: "isWholeWord ''foo(x)'' 0 ''foo''"
    by (simp add: isWholeWord_def isIdentifierChar_def isalnum_def isalpha_def isdigit_def)
  from t [where original = "''foo''" and code = "''foo(x)''" and obfuscated = "''f_1''"
      and pos = 0 and p = 0] f w
  have 3: "replaceSymbol_loop ''foo(x)'' ''foo'' ''f_1'' 0
       = replaceSymbol_loop ''f_1(x)'' ''foo'' ''f_1'' 3"
    by (simp add: numeral_3_eq_3)
  have i: "''foo'' \<noteq> [] \<and> list_all isIdentifierChar ''foo''"
    by (simp add: isIdentifierChar_def isalnum_def isalpha_def)
  have m: "\<forall>entry \<in> set [(''foo'', ''f_1''), (''foo_bar'', ''v_2'')].
         fst entry \<noteq> [] \<and> list_all isIdentifierChar (fst entry)"
    by (simp add: isIdentifierChar_def isalnum_def isalpha_def)
  from t [where original = "''foo''" and code = "''foo(foo_bar, xfoo, foo)''"
      and obfuscated = "''f_1''"] i
  have 1: "replaceSymbol ''foo(foo_bar, xfoo, foo)'' ''foo'' ''f_1''
           = Some ''f_1(foo_bar, xfoo, f_1)''"
    unfolding rewrite_foo by blast
  from t [where code = "''foo(foo_bar, xfoo, foo)''" and h = test_host
      and mapping = "[(''foo'', ''f_1''), (''foo_bar'', ''v_2'')]"] m
  have "applyObfuscation test_host ''foo(foo_bar, xfoo, foo)''
          [(''foo'', ''f_1''), (''foo_bar'', ''v_2'')]
        = Some (rewrite_each ''foo(foo_bar, xfoo, foo)''
                  (sorted_mapping test_host [(''foo'', ''f_1''), (''foo_bar'', ''v_2'')]))"
    by blast
  then have 2: "applyObfuscation test_host ''foo(foo_bar, xfoo, foo)''
          [(''foo'', ''f_1''), (''foo_bar'', ''v_2'')]
        = Some ''f_1(v_2, xfoo, f_1)''"
    unfolding sorted_foo by (simp add: rewrite_foo_bar rewrite_foo_after)
  from m have l: "list_all (\<lambda>entry. fst entry \<noteq> [] \<and> list_all isIdentifierChar (fst entry))
         [(''foo'', ''f_1''), (''foo_bar'', ''v_2'')]"
    by (simp only: list_all_iff)
  from i 1 l 2 f w 3 show ?thesis by blast
qed

end
